theory Spec2Isabelle
  imports Main
begin

section \<open>ChiaTestLedger: a container lifecycle handle\<close>

text \<open>
  A shallow embedding of \<^verbatim>\<open>chia-test-ledger.ts\<close>. The class \<^verbatim>\<open>ChiaTestLedger\<close> owns one
  container of an external container runtime (dockerode). The handle is a record that the
  methods take and return; the runtime is a record of replies; every request sent to the
  runtime or to a collaborator is appended to a trace, so that the order of requests can
  be read off. JavaScript strings are modelled as \<^typ>\<open>string\<close>.
\<close>

subsection \<open>Errors and promises\<close>

text \<open>
  Every error of the source is a plain \<^verbatim>\<open>Error\<close> with a message. The constructors keep
  the throw sites apart:
  \<^item> \<open>Falsy subject\<close>: \<^verbatim>\<open>Checks.truthy\<close> failed;
  \<^item> \<open>BlankString subject\<close>: \<^verbatim>\<open>Checks.nonBlankString\<close> failed;
  \<^item> \<open>Error message\<close>: \<^verbatim>\<open>new Error(message)\<close> thrown by the class itself;
  \<^item> \<open>JoiValidation key\<close>: the error of \<^verbatim>\<open>validateConstructorOptions\<close> (the text that
    Joi's \<^verbatim>\<open>annotate()\<close> prints is not modelled, only the offending key);
  \<^item> \<open>TypeError message\<close>: a property read on \<^verbatim>\<open>undefined\<close>;
  \<^item> \<open>RuntimeFailure message\<close>: an error delivered by the container runtime or by a
    collaborator.
\<close>

datatype error =
    Falsy string
  | BlankString string
  | Error string
  | JoiValidation string
  | TypeError string
  | RuntimeFailure string

text \<open>
  The settlement of a promise, as far as an execution shows it. \<open>NeverSettled\<close>: the code
  that could settle the promise has ended without doing so. \<open>OutOfFuel\<close>: the promise is
  still unsettled and the code that settles it is still running (the polling loop has not
  left after the number of iterations that was observed).
\<close>

datatype 'a promise = Resolved 'a | Rejected error | NeverSettled | OutOfFuel

text \<open>
  A method that is not \<^verbatim>\<open>async\<close> either throws synchronously (\<open>Inl\<close>) or returns a
  promise (\<open>Inr\<close>).
\<close>

type_synonym 'a returned = "error + 'a promise"

subsection \<open>Data of the runtime\<close>

text \<open>
  dockerode's \<^verbatim>\<open>Container\<close> (the field \<^verbatim>\<open>id\<close>) and \<^verbatim>\<open>ContainerInfo\<close> (the fields the class
  reads). \<open>Networks\<close> lists the object's properties in the order \<^verbatim>\<open>Object.keys\<close>
  enumerates them.
\<close>

record Container =
  id' :: string

record NetworkInfo =
  IPAddress :: string

record NetworkSettings =
  Networks :: "(string \<times> NetworkInfo) list"

record ContainerInfo =
  Id' :: string
  Status :: string
  State :: string
  NetworkSettings :: NetworkSettings

text \<open>The fourth argument of \<^verbatim>\<open>docker.run\<close>.\<close>

record CreateOptions =
  User :: string
  ExposedPorts :: "string list"
  PublishAllPorts :: bool
  Privileged :: bool
  Env :: "string list"

text \<open>
  The requests the class issues: to the runtime (\<^verbatim>\<open>container.stop()\<close>,
  \<^verbatim>\<open>container.remove()\<close>, \<^verbatim>\<open>docker.run(image, cmd, streams, createOptions, startOptions)\<close>,
  \<^verbatim>\<open>docker.listContainers({})\<close>), to the log collaborator (\<^verbatim>\<open>Containers.streamLogs\<close> with
  the container and the tag) and to the timer (\<^verbatim>\<open>setTimeout(resolve2, ms)\<close>, awaited).
  \<open>UnhandledRejection\<close> records a rejected promise that nothing handles.
\<close>

datatype event =
    StopReq Container
  | RemoveReq Container
  | RunReq string "string list" CreateOptions
  | StreamLogsReq Container string
  | ListContainersReq
  | SetTimeout nat
  | UnhandledRejection error

type_synonym trace = "event list"

text \<open>
  What \<^verbatim>\<open>docker.run\<close> does with a request: it calls the callback with an error and emits
  no \<^verbatim>\<open>"start"\<close> event, or it emits \<^verbatim>\<open>"start"\<close> with the container. (A callback error
  after the \<^verbatim>\<open>"start"\<close> event is not modelled.)
\<close>

datatype run_result = RunFailed error | RunStarted Container

text \<open>
  The simulated runtime: its reply to each request. \<open>None\<close> is success for the requests
  that return nothing of interest. \<open>list_reply k\<close> is the reply to the \<open>k\<close>-th
  \<^verbatim>\<open>listContainers\<close> request (counted from 0), so that successive queries can see a
  container's status change.
\<close>

record runtime =
  stop_reply :: "Container \<Rightarrow> error option"
  remove_reply :: "Container \<Rightarrow> error option"
  run_reply :: "string \<Rightarrow> run_result"
  logs_reply :: "Container \<Rightarrow> error option"
  list_reply :: "nat \<Rightarrow> error + ContainerInfo list"

definition queries :: "trace \<Rightarrow> nat" where
  "queries tr = length (filter (\<lambda>e. e = ListContainersReq) tr)"

definition settle :: "error option \<Rightarrow> unit promise" where
  "settle r = (case r of None \<Rightarrow> Resolved () | Some e \<Rightarrow> Rejected e)"

subsection \<open>The handle\<close>

record IChiaTestLedgerConstructorOptions =
  opt_imageVersion :: "string option"
  opt_imageName :: "string option"
  opt_envVars :: "string list option"
  opt_emitContainerLogs :: "bool option"
  opt_logLevel :: "string option"

text \<open>
  The fields of the class. \<^verbatim>\<open>imageVersion\<close> and \<^verbatim>\<open>imageName\<close> are declared optional
  (\<^verbatim>\<open>string | undefined\<close>), as are \<^verbatim>\<open>container\<close> and \<^verbatim>\<open>containerId\<close>. The logger is left
  out: \<^verbatim>\<open>log.debug\<close> is no request to the runtime and no method reads the logger back.
\<close>

record ChiaTestLedger =
  opts :: IChiaTestLedgerConstructorOptions
  envVars :: "string list"
  imageVersion :: "string option"
  imageName :: "string option"
  emitContainerLogs :: bool
  container :: "Container option"
  containerId :: "string option"

definition DEFAULTS_imageName :: string where
  "DEFAULTS_imageName = ''ghcr.io/hyperledger/chia-all-in-one''"

definition DEFAULTS_imageVersion :: string where
  "DEFAULTS_imageVersion = ''v1.0.0''"

definition DEFAULTS_envVars :: "string list" where
  "DEFAULTS_envVars = ['''']"

text \<open>\<^verbatim>\<open>s || d\<close> on an optional string: \<^verbatim>\<open>undefined\<close> and the empty string are falsy.\<close>

definition or_default :: "string option \<Rightarrow> string \<Rightarrow> string" where
  "or_default s d = (case s of None \<Rightarrow> d | Some v \<Rightarrow> if v = [] then d else v)"

text \<open>
  The constructor. \<^verbatim>\<open>Checks.truthy(opts)\<close> fails on a missing options object.
  \<^verbatim>\<open>opts.envVars ? opts.envVars : DEFAULTS.envVars\<close>: every array is truthy, the empty one
  too. \<^verbatim>\<open>Checks.truthy(Array.isArray(this.envVars))\<close> cannot fail on a value of type
  \<^verbatim>\<open>string[]\<close>. The call of \<^verbatim>\<open>validateConstructorOptions\<close> is commented out in the source.
\<close>

definition constructor :: "IChiaTestLedgerConstructorOptions option \<Rightarrow> error + ChiaTestLedger" where
  "constructor arg =
     (case arg of
        None \<Rightarrow> Inl (Falsy ''ChiaTestLedger#constructor() options'')
      | Some os \<Rightarrow>
          Inr \<lparr> opts = os,
                envVars = (case opt_envVars os of None \<Rightarrow> DEFAULTS_envVars | Some vs \<Rightarrow> vs),
                imageVersion = Some (or_default (opt_imageVersion os) DEFAULTS_imageVersion),
                imageName = Some (or_default (opt_imageName os) DEFAULTS_imageName),
                emitContainerLogs = (case opt_emitContainerLogs os of None \<Rightarrow> True | Some b \<Rightarrow> b),
                container = None,
                containerId = None \<rparr>)"

text \<open>
  Modelled from the spec: \<^verbatim>\<open>Checks.nonBlankString\<close> of \<^verbatim>\<open>cactus-common\<close> is not among the
  sources. The spec has \<^verbatim>\<open>getContainerId\<close> fail "if no container id is recorded
  (blank/unset)": a value passes when it is a string with a character that is not white
  space. White space is the ASCII set that \<^verbatim>\<open>String.prototype.trim\<close> strips (space, tab,
  line feed, vertical tab, form feed, carriage return).
\<close>

definition isWhiteSpace :: "char \<Rightarrow> bool" where
  "isWhiteSpace ch = (ch \<in> set [CHR 0x20, CHR 0x09, CHR 0x0A, CHR 0x0B, CHR 0x0C, CHR 0x0D])"

definition nonBlank :: "string \<Rightarrow> bool" where
  "nonBlank s = list_ex (\<lambda>ch. \<not> isWhiteSpace ch) s"

definition nonBlankString :: "string option \<Rightarrow> string \<Rightarrow> error option" where
  "nonBlankString v subject =
     (case v of
        None \<Rightarrow> Some (BlankString subject)
      | Some s \<Rightarrow> if nonBlank s then None else Some (BlankString subject))"

text \<open>
  \<^verbatim>\<open>getContainerId\<close>: the check, then \<^verbatim>\<open>return this.containerId as string\<close>. Once the
  check has passed the field holds a string, so the last branch is never taken.
\<close>

definition getContainerId :: "ChiaTestLedger \<Rightarrow> error + string" where
  "getContainerId this =
     (case nonBlankString (containerId this) ''ChiaTestLedger.getContainerId()::containerId'' of
        Some e \<Rightarrow> Inl e
      | None \<Rightarrow> (case containerId this of Some s \<Rightarrow> Inr s
                 | None \<Rightarrow> Inl (TypeError ''containerId'')))"

text \<open>A template literal prints \<^verbatim>\<open>undefined\<close> for a missing value.\<close>

definition template :: "string option \<Rightarrow> string" where
  "template v = (case v of None \<Rightarrow> ''undefined'' | Some s \<Rightarrow> s)"

definition getContainerImageName :: "ChiaTestLedger \<Rightarrow> string" where
  "getContainerImageName this = template (imageName this) @ '':'' @ template (imageVersion this)"

definition getContainer :: "ChiaTestLedger \<Rightarrow> error + Container" where
  "getContainer this =
     (case container this of
        None \<Rightarrow> Inl (Error ''ChiaTestLedger.getContainer() container not set on this instance yet.'')
      | Some c \<Rightarrow> Inr c)"

text \<open>
  \<^verbatim>\<open>getContainerInfo\<close>: the list request is awaited first, then the id is read (and its
  check may throw), then the first entry with that id is looked up.
\<close>

definition getContainerInfo :: "runtime \<Rightarrow> ChiaTestLedger \<Rightarrow> trace \<Rightarrow> (error + ContainerInfo) \<times> trace" where
  "getContainerInfo rt this tr =
     (let tr1 = tr @ [ListContainersReq] in
      case list_reply rt (queries tr) of
        Inl e \<Rightarrow> (Inl e, tr1)
      | Inr containerInfos \<Rightarrow>
          (case getContainerId this of
             Inl e \<Rightarrow> (Inl e, tr1)
           | Inr i \<Rightarrow>
               (case find (\<lambda>ci. Id' ci = i) containerInfos of
                  Some aContainerInfo \<Rightarrow> (Inr aContainerInfo, tr1)
                | None \<Rightarrow>
                    (Inl (Error (''ChiaTestLedger.getContainerInfo() no container with ID ''
                                 @ [CHR 0x22] @ i @ [CHR 0x22])), tr1))))"

text \<open>
  \<^verbatim>\<open>getContainerIpAddress\<close>. The branch for a falsy \<^verbatim>\<open>aContainerInfo\<close> is dead:
  \<^verbatim>\<open>getContainerInfo\<close> returns an object or throws. \<^verbatim>\<open>Object.keys\<close> is the list of the
  first components; the lookup of the first name finds its entry.
\<close>

definition getContainerIpAddress :: "runtime \<Rightarrow> ChiaTestLedger \<Rightarrow> trace \<Rightarrow> string promise \<times> trace" where
  "getContainerIpAddress rt this tr =
     (case getContainerInfo rt this tr of
        (Inl e, tr1) \<Rightarrow> (Rejected e, tr1)
      | (Inr aContainerInfo, tr1) \<Rightarrow>
          (let nets = Networks (NetworkSettings aContainerInfo);
               networkNames = map fst nets in
           case networkNames of
             [] \<Rightarrow> (Rejected (Error
                     ''BesuTestLedger#getContainerIpAddress() container not connected to any networks''), tr1)
           | n # _ \<Rightarrow>
               (case map_of nets n of
                  Some net \<Rightarrow> (Resolved (IPAddress net), tr1)
                | None \<Rightarrow> (Rejected (TypeError ''IPAddress''), tr1))))"


subsection \<open>start, stop, destroy\<close>

text \<open>\<^verbatim>\<open>String.prototype.endsWith\<close>.\<close>

definition endsWith :: "string \<Rightarrow> string \<Rightarrow> bool" where
  "endsWith s suffix =
     (length suffix \<le> length s \<and> drop (length s - length suffix) s = suffix)"

definition healthy :: "string \<Rightarrow> bool" where
  "healthy status = endsWith status ''(healthy)''"

text \<open>
  The \<^verbatim>\<open>try\<close> block of the \<^verbatim>\<open>"start"\<close> handler: the \<^verbatim>\<open>do ... while (!isHealthy)\<close> loop, then
  \<^verbatim>\<open>resolve(container)\<close>; an exception inside is caught and passed to \<^verbatim>\<open>reject\<close>. The
  source's loop has no bound. The first argument bounds the iterations that are observed:
  when it runs out inside the loop, the promise is \<open>OutOfFuel\<close>.
\<close>

fun poll :: "nat \<Rightarrow> runtime \<Rightarrow> ChiaTestLedger \<Rightarrow> Container \<Rightarrow> trace \<Rightarrow> Container promise \<times> trace" where
  "poll 0 rt this c tr = (OutOfFuel, tr)"
| "poll (Suc fuel) rt this c tr =
     (case getContainerInfo rt this tr of
        (Inl ex, tr1) \<Rightarrow> (Rejected ex, tr1)
      | (Inr containerInfo, tr1) \<Rightarrow>
          if healthy (Status containerInfo) then (Resolved c, tr1)
          else poll fuel rt this c (tr1 @ [SetTimeout 1000]))"

text \<open>
  The handler of the \<^verbatim>\<open>"start"\<close> event, an \<^verbatim>\<open>async\<close> function whose promise nobody awaits.
  It records the container and its id, then awaits \<^verbatim>\<open>Containers.streamLogs\<close> when logs are
  to be emitted. That \<^verbatim>\<open>await\<close> stands before the \<^verbatim>\<open>try\<close> block: an exception there rejects
  the handler's own promise and reaches neither \<^verbatim>\<open>resolve\<close> nor \<^verbatim>\<open>reject\<close>.
  \<^verbatim>\<open>Containers.streamLogs\<close> is not among the sources; its outcome is the runtime's
  \<open>logs_reply\<close>.
\<close>

definition onStart :: "nat \<Rightarrow> runtime \<Rightarrow> ChiaTestLedger \<Rightarrow> Container \<Rightarrow> trace
    \<Rightarrow> Container promise \<times> ChiaTestLedger \<times> trace" where
  "onStart fuel rt this0 c tr =
     (let this = this0\<lparr>container := Some c, containerId := Some (id' c)\<rparr> in
      if emitContainerLogs this then
        (let fnTag = ''['' @ getContainerImageName this @ '']'' in
         case getContainer this of
           Inl e \<Rightarrow> (NeverSettled, this, tr @ [UnhandledRejection e])
         | Inr c' \<Rightarrow>
             (let tr1 = tr @ [StreamLogsReq c' fnTag] in
              case logs_reply rt c' of
                Some e \<Rightarrow> (NeverSettled, this, tr1 @ [UnhandledRejection e])
              | None \<Rightarrow> (case poll fuel rt this c tr1 of (p, tr2) \<Rightarrow> (p, this, tr2))))
      else (case poll fuel rt this c tr of (p, tr2) \<Rightarrow> (p, this, tr2)))"

definition createOptions :: "ChiaTestLedger \<Rightarrow> CreateOptions" where
  "createOptions this =
     \<lparr> User = ''root'', ExposedPorts = [''22/tcp''], PublishAllPorts = True,
       Privileged = True, Env = envVars this \<rparr>"

text \<open>
  The promise body of \<^verbatim>\<open>start\<close>: \<^verbatim>\<open>docker.run\<close>, whose callback rejects on an error and
  whose \<^verbatim>\<open>"start"\<close> event runs the handler.
\<close>

definition launch :: "nat \<Rightarrow> runtime \<Rightarrow> ChiaTestLedger \<Rightarrow> string \<Rightarrow> trace
    \<Rightarrow> Container promise \<times> ChiaTestLedger \<times> trace" where
  "launch fuel rt this imageFqn tr =
     (let tr1 = tr @ [RunReq imageFqn [] (createOptions this)] in
      case run_reply rt imageFqn of
        RunFailed err \<Rightarrow> (Rejected err, this, tr1)
      | RunStarted c \<Rightarrow> onStart fuel rt this c tr1)"

text \<open>
  \<^verbatim>\<open>start\<close> is \<^verbatim>\<open>async\<close>: a rejected \<^verbatim>\<open>await\<close> of \<^verbatim>\<open>stop()\<close> or \<^verbatim>\<open>remove()\<close> rejects the
  promise that \<^verbatim>\<open>start\<close> returns, and nothing after it runs.
\<close>

definition start :: "nat \<Rightarrow> runtime \<Rightarrow> ChiaTestLedger \<Rightarrow> trace
    \<Rightarrow> Container promise \<times> ChiaTestLedger \<times> trace" where
  "start fuel rt this tr =
     (let imageFqn = getContainerImageName this in
      case container this of
        Some old \<Rightarrow>
          (case stop_reply rt old of
             Some e \<Rightarrow> (Rejected e, this, tr @ [StopReq old])
           | None \<Rightarrow>
               (case remove_reply rt old of
                  Some e \<Rightarrow> (Rejected e, this, tr @ [StopReq old, RemoveReq old])
                | None \<Rightarrow> launch fuel rt this imageFqn (tr @ [StopReq old, RemoveReq old])))
      | None \<Rightarrow> launch fuel rt this imageFqn tr)"

text \<open>
  Modelled from the spec: \<^verbatim>\<open>Containers.stop\<close> of \<^verbatim>\<open>../common/containers\<close> is not among the
  sources. The spec has \<^verbatim>\<open>stop\<close> issue "a stop request to the runtime collaborator": the
  request is sent for the container and the returned promise settles as the runtime
  replies.
\<close>

definition Containers_stop :: "runtime \<Rightarrow> Container \<Rightarrow> trace \<Rightarrow> unit promise \<times> trace" where
  "Containers_stop rt c tr = (settle (stop_reply rt c), tr @ [StopReq c])"

text \<open>
  \<^verbatim>\<open>stop\<close> is not \<^verbatim>\<open>async\<close>: the argument \<^verbatim>\<open>this.getContainer()\<close> is evaluated first and its
  exception leaves \<^verbatim>\<open>stop\<close> as a synchronous throw.
\<close>

definition stop :: "runtime \<Rightarrow> ChiaTestLedger \<Rightarrow> trace \<Rightarrow> unit returned \<times> ChiaTestLedger \<times> trace" where
  "stop rt this tr =
     (case getContainer this of
        Inl e \<Rightarrow> (Inl e, this, tr)
      | Inr c \<Rightarrow> (case Containers_stop rt c tr of (p, tr1) \<Rightarrow> (Inr p, this, tr1)))"

definition destroy :: "runtime \<Rightarrow> ChiaTestLedger \<Rightarrow> trace \<Rightarrow> unit returned \<times> ChiaTestLedger \<times> trace" where
  "destroy rt this tr =
     (case container this of
        Some c \<Rightarrow> (Inr (settle (remove_reply rt c)), this, tr @ [RemoveReq c])
      | None \<Rightarrow>
          (Inr (Rejected (Error
             ''ChiaTestLedger.destroy() Container was never created, nothing to destroy.'')),
           this, tr))"

subsection \<open>Sequences of operations\<close>

text \<open>
  The public operations that touch the runtime, and the state (handle and trace) a call
  leaves behind. Each call meets the runtime it is given, so the runtime may behave
  differently from one call to the next.
\<close>

datatype operation = OpStart nat | OpStop | OpDestroy | OpGetContainerIpAddress

fun exec :: "runtime \<times> operation \<Rightarrow> ChiaTestLedger \<times> trace \<Rightarrow> ChiaTestLedger \<times> trace" where
  "exec (rt, OpStart fuel) (this, tr) = snd (start fuel rt this tr)"
| "exec (rt, OpStop) (this, tr) = snd (stop rt this tr)"
| "exec (rt, OpDestroy) (this, tr) = snd (destroy rt this tr)"
| "exec (rt, OpGetContainerIpAddress) (this, tr) = (this, snd (getContainerIpAddress rt this tr))"

definition run_ops :: "(runtime \<times> operation) list \<Rightarrow> ChiaTestLedger \<times> trace \<Rightarrow> ChiaTestLedger \<times> trace" where
  "run_ops steps st = fold exec steps st"

subsection \<open>Observations\<close>

text \<open>
  The status the \<open>k\<close>-th \<^verbatim>\<open>listContainers\<close> reply reports for the container with id \<open>i\<close>:
  the \<open>Status\<close> of the first entry with that id, if the reply is a list that has one.
\<close>

definition status_of_query :: "runtime \<Rightarrow> string \<Rightarrow> nat \<Rightarrow> string option" where
  "status_of_query rt i k =
     (case list_reply rt k of
        Inl e \<Rightarrow> None
      | Inr containerInfos \<Rightarrow> map_option Status (find (\<lambda>ci. Id' ci = i) containerInfos))"

text \<open>The events that can follow the run request inside one call of \<^verbatim>\<open>start\<close>.\<close>

definition after_run :: "event \<Rightarrow> bool" where
  "after_run e =
     (case e of StopReq c \<Rightarrow> False | RemoveReq c \<Rightarrow> False | RunReq i cmd co \<Rightarrow> False | _ \<Rightarrow> True)"

subsection \<open>Example handles and runtimes\<close>

definition no_opts :: IChiaTestLedgerConstructorOptions where
  "no_opts = \<lparr> opt_imageVersion = None, opt_imageName = None, opt_envVars = None,
      opt_emitContainerLogs = None, opt_logLevel = None \<rparr>"


text \<open>The handle that \<open>constructor (Some no_opts)\<close> builds.\<close>

definition fresh_handle :: ChiaTestLedger where
  "fresh_handle = \<lparr> opts = no_opts, envVars = [''''], imageVersion = Some ''v1.0.0'',
      imageName = Some ''ghcr.io/hyperledger/chia-all-in-one'', emitContainerLogs = True,
      container = None, containerId = None \<rparr>"


definition example_container :: Container where
  "example_container = \<lparr> id' = ''abc'' \<rparr>"

definition started_handle :: ChiaTestLedger where
  "started_handle = fresh_handle\<lparr>container := Some example_container, containerId := Some ''abc''\<rparr>"

definition example_info :: "string \<Rightarrow> (string \<times> NetworkInfo) list \<Rightarrow> ContainerInfo" where
  "example_info status nets =
     \<lparr> Id' = ''abc'', Status = status, State = ''running'', NetworkSettings = \<lparr> Networks = nets \<rparr> \<rparr>"

text \<open>
  A runtime that accepts every stop and remove request, starts \<open>example_container\<close> on a
  run request, answers the log collaborator's request with \<open>logs\<close> and the list requests
  with \<open>listing\<close>.
\<close>

definition example_runtime :: "error option \<Rightarrow> (nat \<Rightarrow> error + ContainerInfo list) \<Rightarrow> runtime" where
  "example_runtime logs listing =
     \<lparr> stop_reply = (\<lambda>c. None), remove_reply = (\<lambda>c. None),
       run_reply = (\<lambda>image. RunStarted example_container),
       logs_reply = (\<lambda>c. logs), list_reply = listing \<rparr>"

text \<open>Successive list replies that report the statuses of a list, one after the other.\<close>

definition status_sequence :: "string list \<Rightarrow> nat \<Rightarrow> error + ContainerInfo list" where
  "status_sequence sts k =
     (if k < length sts then Inr [example_info (sts ! k) []]
      else Inl (RuntimeFailure ''no further reply''))"

definition always_status :: "string \<Rightarrow> nat \<Rightarrow> error + ContainerInfo list" where
  "always_status s k = Inr [example_info s []]"

definition spec_statuses :: "string list" where
  "spec_statuses = [''starting'', ''starting'', ''running (healthy)'']"

definition two_networks :: "(string \<times> NetworkInfo) list" where
  "two_networks =
     [(''bridge'', \<lparr> IPAddress = ''172.17.0.2'' \<rparr>), (''custom'', \<lparr> IPAddress = ''10.0.0.5'' \<rparr>)]"

definition failing_stop_runtime :: runtime where
  "failing_stop_runtime =
     (example_runtime None (always_status ''running (healthy)''))
       \<lparr>stop_reply := (\<lambda>c. Some (RuntimeFailure ''container already stopped''))\<rparr>"

definition failing_run_runtime :: runtime where
  "failing_run_runtime =
     (example_runtime None (always_status ''running (healthy)''))
       \<lparr>run_reply := (\<lambda>image. RunFailed (RuntimeFailure ''no such image''))\<rparr>"

text \<open>A runtime that starts the container and then lists no container at all.\<close>

definition vanished_runtime :: runtime where
  "vanished_runtime = example_runtime None (\<lambda>k. Inr [])"

text \<open>A runtime whose log collaborator throws.\<close>

definition failing_logs_runtime :: runtime where
  "failing_logs_runtime =
     example_runtime (Some (RuntimeFailure ''logs'')) (always_status ''running (healthy)'')"

text \<open>The trace of a call of \<^verbatim>\<open>start\<close> on \<open>fresh_handle\<close> whose first status query is healthy.\<close>

definition started_trace :: trace where
  "started_trace =
     [RunReq ''ghcr.io/hyperledger/chia-all-in-one:v1.0.0'' [] (createOptions fresh_handle),
      StreamLogsReq example_container ''[ghcr.io/hyperledger/chia-all-in-one:v1.0.0]'',
      ListContainersReq]"

section \<open>Properties\<close>

subsection \<open>Counting queries\<close>

lemma queries_simps:
  "queries [] = 0"
  "queries (tr @ tr') = queries tr + queries tr'"
  "queries (ListContainersReq # tr) = Suc (queries tr)"
  "queries (SetTimeout n # tr) = queries tr"
  "queries (StopReq x # tr) = queries tr"
  "queries (RemoveReq x # tr) = queries tr"
  "queries (RunReq img cmd co # tr) = queries tr"
  "queries (StreamLogsReq x tag # tr) = queries tr"
  "queries (UnhandledRejection e # tr) = queries tr"
  by (simp_all add: queries_def)

lemma queries_replicate:
  "queries (concat (replicate n [ListContainersReq, SetTimeout 1000])) = n"
  by (induction n) (simp_all add: queries_def)

subsection \<open>The id check and the status query\<close>

lemma getContainerId_eq:
  "getContainerId this =
     (case containerId this of
        None \<Rightarrow> Inl (BlankString ''ChiaTestLedger.getContainerId()::containerId'')
      | Some s \<Rightarrow> if nonBlank s then Inr s
                  else Inl (BlankString ''ChiaTestLedger.getContainerId()::containerId''))"
  by (simp add: getContainerId_def nonBlankString_def split: option.splits)

lemma getContainerInfo_trace: "snd (getContainerInfo rt this tr) = tr @ [ListContainersReq]"
  by (simp add: getContainerInfo_def Let_def split: sum.splits option.splits)

lemma getContainerInfo_status:
  assumes "containerId this = Some i" and "nonBlank i"
    and "status_of_query rt i (queries tr) = Some s"
  shows "\<exists>ci. getContainerInfo rt this tr = (Inr ci, tr @ [ListContainersReq]) \<and> Status ci = s"
  using assms
  by (auto simp: getContainerInfo_def getContainerId_eq status_of_query_def Let_def
      split: sum.splits option.splits)

subsection \<open>The polling loop\<close>

text \<open>After \<open>n\<close> unhealthy replies the loop has sent \<open>n\<close> queries, each followed by a wait.\<close>

lemma poll_unhealthy:
  assumes "containerId this = Some i" and "nonBlank i"
    and "\<forall>k<n. \<exists>s. status_of_query rt i (queries tr + k) = Some s \<and> \<not> healthy s"
  shows "poll (n + fuel) rt this c tr =
         poll fuel rt this c (tr @ concat (replicate n [ListContainersReq, SetTimeout 1000]))"
  using assms(3)
proof (induction n arbitrary: tr)
  case 0
  then show ?case by simp
next
  case (Suc n)
  from Suc.prems obtain s where s: "status_of_query rt i (queries tr) = Some s" "\<not> healthy s"
    by force
  from getContainerInfo_status[OF assms(1,2) s(1)] obtain ci
    where ci: "getContainerInfo rt this tr = (Inr ci, tr @ [ListContainersReq])" "Status ci = s"
    by blast
  let ?tr = "tr @ [ListContainersReq, SetTimeout 1000]"
  have "\<forall>k<n. \<exists>s. status_of_query rt i (queries ?tr + k) = Some s \<and> \<not> healthy s"
  proof (intro allI impI)
    fix k assume "k < n"
    then have "Suc k < Suc n" by simp
    with Suc.prems have "\<exists>s. status_of_query rt i (queries tr + Suc k) = Some s \<and> \<not> healthy s"
      by blast
    then show "\<exists>s. status_of_query rt i (queries ?tr + k) = Some s \<and> \<not> healthy s"
      by (simp add: queries_simps)
  qed
  from Suc.IH[OF this] show ?case
    using ci s(2) by simp
qed

lemma poll_healthy:
  assumes "containerId this = Some i" and "nonBlank i"
    and "status_of_query rt i (queries tr) = Some s" and "healthy s"
  shows "poll (Suc fuel) rt this c tr = (Resolved c, tr @ [ListContainersReq])"
  using getContainerInfo_status[OF assms(1,2,3)] assms(4) by auto

lemma poll_first_healthy:
  assumes "containerId this = Some i" and "nonBlank i"
    and "\<forall>k\<le>m. status_of_query rt i (queries tr + k) = Some (st k)"
    and "\<forall>k<m. \<not> healthy (st k)" and "healthy (st m)"
  shows "poll fuel rt this c tr =
     (if m < fuel
      then (Resolved c, tr @ concat (replicate m [ListContainersReq, SetTimeout 1000]) @ [ListContainersReq])
      else (OutOfFuel, tr @ concat (replicate fuel [ListContainersReq, SetTimeout 1000])))"
proof (cases "m < fuel")
  case True
  then obtain f where f: "fuel = m + Suc f"
    by (metis less_iff_Suc_add add_Suc_right)
  have un: "\<forall>k<m. \<exists>s. status_of_query rt i (queries tr + k) = Some s \<and> \<not> healthy s"
    using assms(3,4) by auto
  have "status_of_query rt i (queries (tr @ concat (replicate m [ListContainersReq, SetTimeout 1000])))
        = Some (st m)"
    using assms(3) by (simp add: queries_simps queries_replicate)
  from poll_healthy[OF assms(1,2) this assms(5)]
  have "poll (Suc f) rt this c (tr @ concat (replicate m [ListContainersReq, SetTimeout 1000]))
        = (Resolved c, tr @ concat (replicate m [ListContainersReq, SetTimeout 1000]) @ [ListContainersReq])"
    by (simp only: append_assoc)
  with poll_unhealthy[OF assms(1,2) un, of "Suc f" c]
  have "poll (m + Suc f) rt this c tr
        = (Resolved c, tr @ concat (replicate m [ListContainersReq, SetTimeout 1000]) @ [ListContainersReq])"
    by (simp only:)
  then show ?thesis using True by (simp only: f if_True)
next
  case False
  have un: "\<forall>k<fuel. \<exists>s. status_of_query rt i (queries tr + k) = Some s \<and> \<not> healthy s"
    using assms(3,4) False by auto
  from poll_unhealthy[OF assms(1,2) un, of 0 c] show ?thesis using False by simp
qed

lemma poll_never_healthy:
  assumes "containerId this = Some i" and "nonBlank i"
    and "\<forall>k. status_of_query rt i (queries tr + k) = Some (st k) \<and> \<not> healthy (st k)"
  shows "poll fuel rt this c tr =
     (OutOfFuel, tr @ concat (replicate fuel [ListContainersReq, SetTimeout 1000]))"
proof -
  have un: "\<forall>k<fuel. \<exists>s. status_of_query rt i (queries tr + k) = Some s \<and> \<not> healthy s"
    using assms(3) by auto
  from poll_unhealthy[OF assms(1,2) un, of 0 c] show ?thesis by simp
qed

lemma poll_resolved: "fst (poll fuel rt this c tr) = Resolved c' \<Longrightarrow> c' = c"
proof (induction fuel arbitrary: tr)
  case 0
  then show ?case by simp
next
  case (Suc fuel)
  then show ?case
    by (cases "getContainerInfo rt this tr") (auto split: sum.splits if_splits)
qed

lemma poll_trace:
  "\<exists>rest. snd (poll fuel rt this c tr) = tr @ rest \<and> set rest \<subseteq> {ListContainersReq, SetTimeout 1000}"
proof (induction fuel arbitrary: tr)
  case 0
  then show ?case by simp
next
  case (Suc fuel)
  obtain r tr1 where g: "getContainerInfo rt this tr = (r, tr1)"
    by (cases "getContainerInfo rt this tr")
  with getContainerInfo_trace[of rt this tr] have tr1: "tr1 = tr @ [ListContainersReq]" by simp
  show ?case
  proof (cases r)
    case (Inl ex)
    then show ?thesis using g tr1 by simp
  next
    case (Inr ci)
    show ?thesis
    proof (cases "healthy (Status ci)")
      case True
      then show ?thesis using g tr1 Inr by simp
    next
      case False
      from Suc.IH[of "tr1 @ [SetTimeout 1000]"] obtain rest where
        "snd (poll fuel rt this c (tr1 @ [SetTimeout 1000])) = (tr1 @ [SetTimeout 1000]) @ rest"
        "set rest \<subseteq> {ListContainersReq, SetTimeout 1000}" by blast
      then have "snd (poll (Suc fuel) rt this c tr) = tr @ (ListContainersReq # SetTimeout 1000 # rest)
          \<and> set (ListContainersReq # SetTimeout 1000 # rest) \<subseteq> {ListContainersReq, SetTimeout 1000}"
        using g tr1 Inr False by simp
      then show ?thesis by blast
    qed
  qed
qed

subsection \<open>The shape of a call of start\<close>

lemma start_eq_poll:
  assumes "\<forall>old. container this = Some old \<longrightarrow> stop_reply rt old = None \<and> remove_reply rt old = None"
    and "run_reply rt (getContainerImageName this) = RunStarted c"
    and "emitContainerLogs this \<longrightarrow> logs_reply rt c = None"
  shows "\<exists>pre. queries pre = 0 \<and> (\<forall>ms. SetTimeout ms \<notin> set pre) \<and> ListContainersReq \<notin> set pre \<and>
           (\<forall>fuel. start fuel rt this tr =
              (fst (poll fuel rt (this\<lparr>container := Some c, containerId := Some (id' c)\<rparr>) c (tr @ pre)),
               this\<lparr>container := Some c, containerId := Some (id' c)\<rparr>,
               snd (poll fuel rt (this\<lparr>container := Some c, containerId := Some (id' c)\<rparr>) c (tr @ pre))))"
proof -
  let ?h = "this\<lparr>container := Some c, containerId := Some (id' c)\<rparr>"
  let ?run = "RunReq (getContainerImageName this) [] (createOptions this)"
  let ?down = "case container this of None \<Rightarrow> [] | Some old \<Rightarrow> [StopReq old, RemoveReq old]"
  let ?logs = "if emitContainerLogs this
               then [StreamLogsReq c (''['' @ getContainerImageName this @ '']'')] else []"
  let ?pre = "?down @ [?run] @ ?logs"
  have img: "getContainerImageName ?h = getContainerImageName this"
    by (simp add: getContainerImageName_def)
  have on: "onStart fuel rt this c tr' =
      (fst (poll fuel rt ?h c (tr' @ ?logs)), ?h, snd (poll fuel rt ?h c (tr' @ ?logs)))"
    for fuel tr'
    using assms(3) by (simp add: onStart_def Let_def getContainer_def img split: prod.splits)
  have la: "launch fuel rt this (getContainerImageName this) tr' =
      (fst (poll fuel rt ?h c (tr' @ [?run] @ ?logs)), ?h,
       snd (poll fuel rt ?h c (tr' @ [?run] @ ?logs)))"
    for fuel tr'
    using assms(2) on[of fuel "tr' @ [?run]"] by (simp add: launch_def Let_def)
  have st: "start fuel rt this tr =
      (fst (poll fuel rt ?h c (tr @ ?pre)), ?h, snd (poll fuel rt ?h c (tr @ ?pre)))"
    for fuel
  proof (cases "container this")
    case None
    then show ?thesis using la[of fuel tr] by (simp add: start_def Let_def)
  next
    case (Some old)
    then show ?thesis using assms(1) la[of fuel "tr @ [StopReq old, RemoveReq old]"]
      by (simp add: start_def Let_def)
  qed
  have "queries ?pre = 0"
    by (simp add: queries_simps split: option.splits)
  moreover have "\<forall>ms. SetTimeout ms \<notin> set ?pre"
    by (simp split: option.splits)
  moreover have "ListContainersReq \<notin> set ?pre"
    by (simp split: option.splits)
  ultimately show ?thesis using st by blast
qed

lemma onStart_shape:
  "\<exists>p rest. onStart fuel rt this c tr =
       (p, this\<lparr>container := Some c, containerId := Some (id' c)\<rparr>, tr @ rest)
     \<and> (\<forall>e\<in>set rest. after_run e)"
proof -
  let ?h = "this\<lparr>container := Some c, containerId := Some (id' c)\<rparr>"
  have P: "\<exists>p rest. (case poll fuel rt ?h c (tr @ pre) of (p, tr2) \<Rightarrow> (p, ?h, tr2)) = (p, ?h, tr @ rest)
      \<and> (\<forall>e\<in>set rest. after_run e)" if "\<forall>e\<in>set pre. after_run e" for pre
  proof -
    from poll_trace[of fuel rt ?h c "tr @ pre"] obtain rest where
      r: "snd (poll fuel rt ?h c (tr @ pre)) = (tr @ pre) @ rest"
         "set rest \<subseteq> {ListContainersReq, SetTimeout 1000}" by blast
    then have "\<forall>e\<in>set (pre @ rest). after_run e"
      using that by (auto simp: after_run_def)
    moreover have "(case poll fuel rt ?h c (tr @ pre) of (p, tr2) \<Rightarrow> (p, ?h, tr2))
        = (fst (poll fuel rt ?h c (tr @ pre)), ?h, tr @ (pre @ rest))"
      using r(1) by (simp add: case_prod_beta)
    ultimately show ?thesis by blast
  qed
  show ?thesis
  proof (cases "emitContainerLogs this")
    case False
    then show ?thesis using P[of "[]"] by (simp add: onStart_def Let_def)
  next
    case True
    show ?thesis
    proof (cases "logs_reply rt c")
      case None
      then show ?thesis
        using True P[of "[StreamLogsReq c (''['' @ getContainerImageName ?h @ '']'')]"]
        by (simp add: onStart_def Let_def getContainer_def after_run_def)
    next
      case (Some e)
      then show ?thesis using True
        by (simp add: onStart_def Let_def getContainer_def after_run_def)
    qed
  qed
qed

lemma launch_shape:
  "\<exists>p this' rest. launch fuel rt this img tr =
       (p, this', tr @ RunReq img [] (createOptions this) # rest)
     \<and> (\<forall>e\<in>set rest. after_run e)
     \<and> (this' = this \<or> (\<exists>c. this' = this\<lparr>container := Some c, containerId := Some (id' c)\<rparr>))"
proof (cases "run_reply rt img")
  case (RunFailed err)
  then show ?thesis by (simp add: launch_def Let_def)
next
  case (RunStarted c)
  from onStart_shape[of fuel rt this c "tr @ [RunReq img [] (createOptions this)]"]
  show ?thesis using RunStarted by (auto simp: launch_def Let_def)
qed

lemma start_shape:
  "\<exists>p this' rest. start fuel rt this tr =
       (p, this',
        tr @ (case container this of
                None \<Rightarrow> RunReq (getContainerImageName this) [] (createOptions this) # rest
              | Some old \<Rightarrow>
                  if stop_reply rt old \<noteq> None then [StopReq old]
                  else if remove_reply rt old \<noteq> None then [StopReq old, RemoveReq old]
                  else [StopReq old, RemoveReq old,
                        RunReq (getContainerImageName this) [] (createOptions this)] @ rest))
     \<and> (\<forall>e\<in>set rest. after_run e)
     \<and> (this' = this \<or> (\<exists>c. this' = this\<lparr>container := Some c, containerId := Some (id' c)\<rparr>))"
proof (cases "container this")
  case None
  then show ?thesis using launch_shape[of fuel rt this "getContainerImageName this" tr]
    by (simp add: start_def Let_def)
next
  case (Some old)
  show ?thesis
  proof (cases "stop_reply rt old = None \<and> remove_reply rt old = None")
    case True
    then show ?thesis
      using Some launch_shape[of fuel rt this "getContainerImageName this" "tr @ [StopReq old, RemoveReq old]"]
      by (simp add: start_def Let_def)
  next
    case False
    have "start fuel rt this tr =
       (fst (start fuel rt this tr), this,
        tr @ (if stop_reply rt old \<noteq> None then [StopReq old]
              else if remove_reply rt old \<noteq> None then [StopReq old, RemoveReq old]
              else [StopReq old, RemoveReq old,
                    RunReq (getContainerImageName this) [] (createOptions this)] @ []))"
      using Some False by (auto simp: start_def Let_def split: option.splits)
    moreover have "\<forall>e\<in>set ([]::event list). after_run e" by simp
    ultimately show ?thesis using Some by (simp only: option.case) blast
  qed
qed

lemma onStart_resolved:
  assumes "onStart fuel rt this0 c tr0 = (Resolved c', this, tr)"
  shows "c' = c \<and> this = this0\<lparr>container := Some c, containerId := Some (id' c)\<rparr>"
proof -
  from onStart_shape[of fuel rt this0 c tr0] assms
  have h: "this = this0\<lparr>container := Some c, containerId := Some (id' c)\<rparr>" by auto
  from assms have "\<exists>tr'. poll fuel rt (this0\<lparr>container := Some c, containerId := Some (id' c)\<rparr>) c tr' = (Resolved c', tr)"
    by (auto simp: onStart_def Let_def getContainer_def split: if_splits option.splits prod.splits)
  then obtain tr' where "poll fuel rt (this0\<lparr>container := Some c, containerId := Some (id' c)\<rparr>) c tr' = (Resolved c', tr)"
    by blast
  then have "fst (poll fuel rt (this0\<lparr>container := Some c, containerId := Some (id' c)\<rparr>) c tr') = Resolved c'"
    by simp
  with poll_resolved have "c' = c" by blast
  with h show ?thesis by simp
qed

lemma launch_resolved:
  assumes "launch fuel rt this0 img tr0 = (Resolved c, this, tr)"
  shows "this = this0\<lparr>container := Some c, containerId := Some (id' c)\<rparr>"
  using assms
  by (auto simp: launch_def Let_def split: run_result.splits dest: onStart_resolved)

lemma start_resolved:
  assumes "start fuel rt this0 tr0 = (Resolved c, this, tr)"
  shows "this = this0\<lparr>container := Some c, containerId := Some (id' c)\<rparr>"
  using assms
  by (auto simp: start_def Let_def split: option.splits dest: launch_resolved)

subsection \<open>Operations and the handle\<close>

lemma stop_handle: "fst (snd (stop rt this tr)) = this"
  by (simp add: stop_def Containers_stop_def split: sum.splits)

lemma destroy_handle: "fst (snd (destroy rt this tr)) = this"
  by (simp add: destroy_def split: option.splits)

lemma start_handle:
  "fst (snd (start fuel rt this tr)) = this \<or>
   (\<exists>c. fst (snd (start fuel rt this tr)) = this\<lparr>container := Some c, containerId := Some (id' c)\<rparr>)"
  using start_shape[of fuel rt this tr] by auto

lemma exec_inv:
  assumes "containerId this = map_option id' (container this)"
  shows "containerId (fst (exec step (this, tr))) = map_option id' (container (fst (exec step (this, tr))))"
proof -
  obtain rt op where step: "step = (rt, op)" by (cases step)
  show ?thesis
  proof (cases op)
    case (OpStart fuel)
    from start_handle[of fuel rt this tr] show ?thesis
      using assms by (auto simp: step OpStart)
  next
    case OpStop
    then show ?thesis using assms stop_handle[of rt this tr] by (simp add: step)
  next
    case OpDestroy
    then show ?thesis using assms destroy_handle[of rt this tr] by (simp add: step)
  next
    case OpGetContainerIpAddress
    then show ?thesis using assms by (simp add: step)
  qed
qed

lemma run_ops_inv:
  "containerId (fst st) = map_option id' (container (fst st)) \<Longrightarrow>
   containerId (fst (run_ops steps st)) = map_option id' (container (fst (run_ops steps st)))"
proof (induction steps arbitrary: st)
  case Nil
  then show ?case by (simp add: run_ops_def)
next
  case (Cons step steps)
  obtain this tr where st: "st = (this, tr)" by (cases st)
  from Cons.prems exec_inv[where this=this and tr=tr and step=step]
  have "containerId (fst (exec step st)) = map_option id' (container (fst (exec step st)))"
    by (simp add: st)
  from Cons.IH[OF this] show ?case by (simp add: run_ops_def)
qed




subsection \<open>Resolution, failed queries and the order of requests\<close>

lemma getContainerInfo_Inr:
  assumes "getContainerInfo rt this tr = (Inr ci, tr')"
  shows "\<exists>i. getContainerId this = Inr i \<and> status_of_query rt i (queries tr) = Some (Status ci)
           \<and> tr' = tr @ [ListContainersReq]"
  using assms
  by (auto simp: getContainerInfo_def status_of_query_def Let_def
      split: sum.splits option.splits)

lemma getContainerInfo_none:
  assumes "containerId this = Some i" and "nonBlank i"
    and "status_of_query rt i (queries tr) = None"
  shows "\<exists>e. getContainerInfo rt this tr = (Inl e, tr @ [ListContainersReq])"
  using assms
  by (auto simp: getContainerInfo_def getContainerId_eq status_of_query_def Let_def
      split: sum.splits option.splits)

lemma poll_resolved_only_when:
  assumes "poll fuel rt this c tr = (Resolved c', tr')"
  shows "\<exists>m i st. m < fuel \<and> getContainerId this = Inr i \<and>
           (\<forall>k\<le>m. status_of_query rt i (queries tr + k) = Some (st k)) \<and>
           (\<forall>k<m. \<not> healthy (st k)) \<and> healthy (st m) \<and>
           tr' = tr @ concat (replicate m [ListContainersReq, SetTimeout 1000]) @ [ListContainersReq]"
  using assms
proof (induction fuel arbitrary: tr)
  case 0
  then show ?case by simp
next
  case (Suc fuel)
  obtain r tr1 where g: "getContainerInfo rt this tr = (r, tr1)"
    by (cases "getContainerInfo rt this tr")
  show ?case
  proof (cases r)
    case (Inl ex)
    with g Suc.prems show ?thesis by simp
  next
    case (Inr ci)
    from getContainerInfo_Inr[OF g[unfolded Inr]] obtain i where
      i: "getContainerId this = Inr i" "status_of_query rt i (queries tr) = Some (Status ci)"
      and tr1: "tr1 = tr @ [ListContainersReq]" by blast
    show ?thesis
    proof (cases "healthy (Status ci)")
      case True
      with g Inr Suc.prems tr1 have "tr' = tr @ [ListContainersReq]" by simp
      with i True have "0 < Suc fuel \<and> getContainerId this = Inr i \<and>
           (\<forall>k\<le>0. status_of_query rt i (queries tr + k) = Some ((\<lambda>k::nat. Status ci) k)) \<and>
           (\<forall>k<0::nat. \<not> healthy ((\<lambda>k::nat. Status ci) k)) \<and> healthy ((\<lambda>k::nat. Status ci) 0) \<and>
           tr' = tr @ concat (replicate 0 [ListContainersReq, SetTimeout 1000]) @ [ListContainersReq]"
        by simp
      then show ?thesis
        by (intro exI[of _ "0::nat"] exI[of _ i] exI[of _ "\<lambda>k::nat. Status ci"])
    next
      case False
      let ?tr = "tr @ [ListContainersReq, SetTimeout 1000]"
      from g Inr Suc.prems tr1 False have "poll fuel rt this c ?tr = (Resolved c', tr')" by simp
      from Suc.IH[OF this] obtain m j st where
        m: "m < fuel" and j: "getContainerId this = Inr j"
        and st: "\<forall>k\<le>m. status_of_query rt j (queries ?tr + k) = Some (st k)"
        and un: "\<forall>k<m. \<not> healthy (st k)" and he: "healthy (st m)"
        and t: "tr' = ?tr @ concat (replicate m [ListContainersReq, SetTimeout 1000]) @ [ListContainersReq]"
        by blast
      from i j have ji: "j = i" by simp
      let ?st = "\<lambda>k. case k of 0 \<Rightarrow> Status ci | Suc n \<Rightarrow> st n"
      have a: "\<forall>k\<le>Suc m. status_of_query rt i (queries tr + k) = Some (?st k)"
      proof (intro allI impI)
        fix k assume k: "k \<le> Suc m"
        show "status_of_query rt i (queries tr + k) = Some (?st k)"
        proof (cases k)
          case 0
          then show ?thesis using i(2) by simp
        next
          case (Suc n)
          with k have "n \<le> m" by simp
          with st have "status_of_query rt j (queries ?tr + n) = Some (st n)" by blast
          then show ?thesis using Suc ji by (simp add: queries_simps)
        qed
      qed
      have b: "\<forall>k<Suc m. \<not> healthy (?st k)"
      proof (intro allI impI)
        fix k assume k: "k < Suc m"
        show "\<not> healthy (?st k)"
          using k un False by (cases k) simp_all
      qed
      have c: "healthy (?st (Suc m))" using he by simp
      have d: "tr' = tr @ concat (replicate (Suc m) [ListContainersReq, SetTimeout 1000]) @ [ListContainersReq]"
        using t by simp
      from m have e: "Suc m < Suc fuel" by simp
      show ?thesis
        by (rule exI[of _ "Suc m"], rule exI[of _ i], rule exI[of _ ?st]) (use e i(1) a b c d in blast)
    qed
  qed
qed

lemma poll_query_fails:
  assumes "containerId this = Some i" and "nonBlank i"
    and "\<forall>k<m. status_of_query rt i (queries tr + k) = Some (st k) \<and> \<not> healthy (st k)"
    and "status_of_query rt i (queries tr + m) = None"
  shows "\<exists>e. poll fuel rt this c tr =
     (if m < fuel
      then (Rejected e, tr @ concat (replicate m [ListContainersReq, SetTimeout 1000]) @ [ListContainersReq])
      else (OutOfFuel, tr @ concat (replicate fuel [ListContainersReq, SetTimeout 1000])))"
proof (cases "m < fuel")
  case True
  then obtain f where f: "fuel = m + Suc f"
    by (metis less_iff_Suc_add add_Suc_right)
  have un: "\<forall>k<m. \<exists>s. status_of_query rt i (queries tr + k) = Some s \<and> \<not> healthy s"
    using assms(3) by auto
  let ?tr = "tr @ concat (replicate m [ListContainersReq, SetTimeout 1000])"
  have "status_of_query rt i (queries ?tr) = None"
    using assms(4) by (simp add: queries_simps queries_replicate)
  from getContainerInfo_none[OF assms(1,2) this] obtain e where
    "getContainerInfo rt this ?tr = (Inl e, ?tr @ [ListContainersReq])" by blast
  then have "poll (Suc f) rt this c ?tr = (Rejected e, ?tr @ [ListContainersReq])" by simp
  with poll_unhealthy[OF assms(1,2) un, of "Suc f" c]
  have "poll (m + Suc f) rt this c tr = (Rejected e, ?tr @ [ListContainersReq])"
    by (simp only:)
  then have "poll fuel rt this c tr =
      (Rejected e, tr @ concat (replicate m [ListContainersReq, SetTimeout 1000]) @ [ListContainersReq])"
    by (simp only: f append_assoc)
  then have "poll fuel rt this c tr =
     (if m < fuel
      then (Rejected e, tr @ concat (replicate m [ListContainersReq, SetTimeout 1000]) @ [ListContainersReq])
      else (OutOfFuel, tr @ concat (replicate fuel [ListContainersReq, SetTimeout 1000])))"
    using True by (simp only: if_True)
  then show ?thesis by (rule exI)
next
  case False
  have un: "\<forall>k<fuel. \<exists>s. status_of_query rt i (queries tr + k) = Some s \<and> \<not> healthy s"
    using assms(3) False by auto
  from poll_unhealthy[OF assms(1,2) un, of 0 c] show ?thesis using False by simp
qed

lemma start_resolved_replies:
  assumes "fst (start fuel rt this tr) = Resolved c"
  shows "(\<forall>old. container this = Some old \<longrightarrow> stop_reply rt old = None \<and> remove_reply rt old = None)
     \<and> run_reply rt (getContainerImageName this) = RunStarted c
     \<and> (emitContainerLogs this \<longrightarrow> logs_reply rt c = None)"
proof -
  have on: "c' = c \<and> (emitContainerLogs this \<longrightarrow> logs_reply rt c' = None)"
    if "fst (onStart fuel rt this c' tr') = Resolved c" for c' tr'
  proof -
    obtain p h t where o: "onStart fuel rt this c' tr' = (p, h, t)"
      by (cases "onStart fuel rt this c' tr'")
    with that have "onStart fuel rt this c' tr' = (Resolved c, h, t)" by simp
    from onStart_resolved[OF this] have "c = c'" by simp
    moreover have "logs_reply rt c' = None" if "emitContainerLogs this"
      using that \<open>fst (onStart fuel rt this c' tr') = Resolved c\<close>
      by (cases "logs_reply rt c'") (simp_all add: onStart_def Let_def getContainer_def)
    ultimately show ?thesis by simp
  qed
  have la: "run_reply rt img = RunStarted c \<and> (emitContainerLogs this \<longrightarrow> logs_reply rt c = None)"
    if "fst (launch fuel rt this img tr') = Resolved c" for img tr'
  proof (cases "run_reply rt img")
    case (RunFailed err)
    with that show ?thesis by (simp add: launch_def Let_def)
  next
    case (RunStarted c')
    with that have "fst (onStart fuel rt this c' (tr' @ [RunReq img [] (createOptions this)])) = Resolved c"
      by (simp add: launch_def Let_def)
    from on[OF this] RunStarted show ?thesis by auto
  qed
  show ?thesis
  proof (cases "container this")
    case None
    with assms have "fst (launch fuel rt this (getContainerImageName this) tr) = Resolved c"
      by (simp add: start_def Let_def)
    from la[OF this] None show ?thesis by simp
  next
    case (Some old)
    show ?thesis
    proof (cases "stop_reply rt old")
      case (Some e)
      with \<open>container this = Some old\<close> assms show ?thesis by (simp add: start_def Let_def)
    next
      case None
      note sn = None
      show ?thesis
      proof (cases "remove_reply rt old")
        case (Some e)
        with \<open>container this = Some old\<close> sn assms show ?thesis by (simp add: start_def Let_def)
      next
        case None
        with \<open>container this = Some old\<close> sn assms
        have "fst (launch fuel rt this (getContainerImageName this) (tr @ [StopReq old, RemoveReq old])) = Resolved c"
          by (simp add: start_def Let_def)
        from la[OF this] \<open>container this = Some old\<close> sn None show ?thesis by simp
      qed
    qed
  qed
qed

lemma start_polls:
  assumes "\<forall>old. container this = Some old \<longrightarrow> stop_reply rt old = None \<and> remove_reply rt old = None"
    and "run_reply rt (getContainerImageName this) = RunStarted c"
    and "emitContainerLogs this \<longrightarrow> logs_reply rt c = None"
    and "nonBlank (id' c)"
  shows "\<exists>pre. ListContainersReq \<notin> set pre \<and> (\<forall>ms. SetTimeout ms \<notin> set pre) \<and>
     (\<forall>fuel m st.
        (\<forall>k\<le>m. status_of_query rt (id' c) (queries tr + k) = Some (st k)) \<and>
        (\<forall>k<m. \<not> healthy (st k)) \<and> healthy (st m) \<longrightarrow>
        start fuel rt this tr =
          (if m < fuel
           then (Resolved c, this\<lparr>container := Some c, containerId := Some (id' c)\<rparr>,
                 tr @ pre @ concat (replicate m [ListContainersReq, SetTimeout 1000]) @ [ListContainersReq])
           else (OutOfFuel, this\<lparr>container := Some c, containerId := Some (id' c)\<rparr>,
                 tr @ pre @ concat (replicate fuel [ListContainersReq, SetTimeout 1000])))) \<and>
     (\<forall>fuel st.
        (\<forall>k. status_of_query rt (id' c) (queries tr + k) = Some (st k) \<and> \<not> healthy (st k)) \<longrightarrow>
        start fuel rt this tr =
          (OutOfFuel, this\<lparr>container := Some c, containerId := Some (id' c)\<rparr>,
           tr @ pre @ concat (replicate fuel [ListContainersReq, SetTimeout 1000]))) \<and>
     (\<forall>fuel m st.
        (\<forall>k<m. status_of_query rt (id' c) (queries tr + k) = Some (st k) \<and> \<not> healthy (st k)) \<and>
        status_of_query rt (id' c) (queries tr + m) = None \<longrightarrow>
        (\<exists>e. start fuel rt this tr =
          (if m < fuel
           then (Rejected e, this\<lparr>container := Some c, containerId := Some (id' c)\<rparr>,
                 tr @ pre @ concat (replicate m [ListContainersReq, SetTimeout 1000]) @ [ListContainersReq])
           else (OutOfFuel, this\<lparr>container := Some c, containerId := Some (id' c)\<rparr>,
                 tr @ pre @ concat (replicate fuel [ListContainersReq, SetTimeout 1000])))))"
proof -
  let ?h = "this\<lparr>container := Some c, containerId := Some (id' c)\<rparr>"
  from start_eq_poll[OF assms(1,2,3), of tr] obtain pre where
    pre: "queries pre = 0" "\<forall>ms. SetTimeout ms \<notin> set pre" "ListContainersReq \<notin> set pre"
    and st: "\<And>fuel. start fuel rt this tr =
              (fst (poll fuel rt ?h c (tr @ pre)), ?h, snd (poll fuel rt ?h c (tr @ pre)))"
    by blast
  have cid: "containerId ?h = Some (id' c)" by simp
  have q: "queries (tr @ pre) = queries tr"
    using pre(1) by (simp add: queries_simps)
  have A: "start fuel rt this tr =
          (if m < fuel
           then (Resolved c, ?h,
                 tr @ pre @ concat (replicate m [ListContainersReq, SetTimeout 1000]) @ [ListContainersReq])
           else (OutOfFuel, ?h,
                 tr @ pre @ concat (replicate fuel [ListContainersReq, SetTimeout 1000])))"
    if "\<forall>k\<le>m. status_of_query rt (id' c) (queries tr + k) = Some (st k)"
      and "\<forall>k<m. \<not> healthy (st k)" and "healthy (st m)" for fuel m st
  proof -
    from that(1) have "\<forall>k\<le>m. status_of_query rt (id' c) (queries (tr @ pre) + k) = Some (st k)"
      unfolding q .
    from poll_first_healthy[OF cid assms(4) this that(2,3), of fuel c]
    show ?thesis by (simp add: st)
  qed
  have B: "start fuel rt this tr =
          (OutOfFuel, ?h, tr @ pre @ concat (replicate fuel [ListContainersReq, SetTimeout 1000]))"
    if "\<forall>k. status_of_query rt (id' c) (queries tr + k) = Some (st k) \<and> \<not> healthy (st k)"
    for fuel st
  proof -
    from that have "\<forall>k. status_of_query rt (id' c) (queries (tr @ pre) + k) = Some (st k) \<and> \<not> healthy (st k)"
      unfolding q .
    from poll_never_healthy[OF cid assms(4) this, of fuel c]
    show ?thesis by (simp add: st)
  qed
  have C: "\<exists>e. start fuel rt this tr =
          (if m < fuel
           then (Rejected e, ?h,
                 tr @ pre @ concat (replicate m [ListContainersReq, SetTimeout 1000]) @ [ListContainersReq])
           else (OutOfFuel, ?h,
                 tr @ pre @ concat (replicate fuel [ListContainersReq, SetTimeout 1000])))"
    if "\<forall>k<m. status_of_query rt (id' c) (queries tr + k) = Some (st k) \<and> \<not> healthy (st k)"
      and "status_of_query rt (id' c) (queries tr + m) = None" for fuel m st
  proof -
    from that(1) have 1: "\<forall>k<m. status_of_query rt (id' c) (queries (tr @ pre) + k) = Some (st k)
        \<and> \<not> healthy (st k)"
      unfolding q .
    from that(2) have 2: "status_of_query rt (id' c) (queries (tr @ pre) + m) = None"
      unfolding q .
    from poll_query_fails[OF cid assms(4) 1 2, of fuel c] obtain e where
      "poll fuel rt ?h c (tr @ pre) =
         (if m < fuel
          then (Rejected e, (tr @ pre) @ concat (replicate m [ListContainersReq, SetTimeout 1000]) @ [ListContainersReq])
          else (OutOfFuel, (tr @ pre) @ concat (replicate fuel [ListContainersReq, SetTimeout 1000])))"
      by blast
    then have "start fuel rt this tr =
          (if m < fuel
           then (Rejected e, ?h,
                 tr @ pre @ concat (replicate m [ListContainersReq, SetTimeout 1000]) @ [ListContainersReq])
           else (OutOfFuel, ?h,
                 tr @ pre @ concat (replicate fuel [ListContainersReq, SetTimeout 1000])))"
      by (simp add: st)
    then show ?thesis by (rule exI)
  qed
  from A B C pre(2,3) show ?thesis by blast
qed

lemma start_resolved_only_when:
  assumes "fst (start fuel rt this tr) = Resolved c"
  shows "run_reply rt (getContainerImageName this) = RunStarted c \<and> nonBlank (id' c) \<and>
     (\<exists>m st pre. m < fuel \<and>
        (\<forall>k\<le>m. status_of_query rt (id' c) (queries tr + k) = Some (st k)) \<and>
        (\<forall>k<m. \<not> healthy (st k)) \<and> healthy (st m) \<and>
        ListContainersReq \<notin> set pre \<and> (\<forall>ms. SetTimeout ms \<notin> set pre) \<and>
        snd (snd (start fuel rt this tr)) =
          tr @ pre @ concat (replicate m [ListContainersReq, SetTimeout 1000]) @ [ListContainersReq])"
proof -
  let ?h = "this\<lparr>container := Some c, containerId := Some (id' c)\<rparr>"
  from start_resolved_replies[OF assms] have
    r: "\<forall>old. container this = Some old \<longrightarrow> stop_reply rt old = None \<and> remove_reply rt old = None"
       "run_reply rt (getContainerImageName this) = RunStarted c"
       "emitContainerLogs this \<longrightarrow> logs_reply rt c = None"
    by simp_all
  from start_eq_poll[OF r, of tr] obtain pre where
    pre: "queries pre = 0" "\<forall>ms. SetTimeout ms \<notin> set pre" "ListContainersReq \<notin> set pre"
    and st: "\<And>fuel. start fuel rt this tr =
              (fst (poll fuel rt ?h c (tr @ pre)), ?h, snd (poll fuel rt ?h c (tr @ pre)))"
    by blast
  have q: "queries (tr @ pre) = queries tr"
    using pre(1) by (simp add: queries_simps)
  from assms st[of fuel] have "fst (poll fuel rt ?h c (tr @ pre)) = Resolved c" by simp
  then have "poll fuel rt ?h c (tr @ pre) = (Resolved c, snd (poll fuel rt ?h c (tr @ pre)))"
    by (metis prod.collapse)
  from poll_resolved_only_when[OF this] obtain m i f where
    m: "m < fuel" and i: "getContainerId ?h = Inr i"
    and f: "\<forall>k\<le>m. status_of_query rt i (queries (tr @ pre) + k) = Some (f k)"
    and un: "\<forall>k<m. \<not> healthy (f k)" and he: "healthy (f m)"
    and t: "snd (poll fuel rt ?h c (tr @ pre)) =
        (tr @ pre) @ concat (replicate m [ListContainersReq, SetTimeout 1000]) @ [ListContainersReq]"
    by blast
  from i have nb: "nonBlank (id' c)" and ii: "i = id' c"
    by (simp_all add: getContainerId_eq split: if_splits)
  from f have f': "\<forall>k\<le>m. status_of_query rt (id' c) (queries tr + k) = Some (f k)"
    unfolding q ii .
  have tr': "snd (snd (start fuel rt this tr)) =
      tr @ pre @ concat (replicate m [ListContainersReq, SetTimeout 1000]) @ [ListContainersReq]"
    using t by (simp add: st)
  have "\<exists>m st pre. m < fuel \<and>
        (\<forall>k\<le>m. status_of_query rt (id' c) (queries tr + k) = Some (st k)) \<and>
        (\<forall>k<m. \<not> healthy (st k)) \<and> healthy (st m) \<and>
        ListContainersReq \<notin> set pre \<and> (\<forall>ms. SetTimeout ms \<notin> set pre) \<and>
        snd (snd (start fuel rt this tr)) =
          tr @ pre @ concat (replicate m [ListContainersReq, SetTimeout 1000]) @ [ListContainersReq]"
    by (rule exI[of _ m], rule exI[of _ f], rule exI[of _ pre]) (use m f' un he pre(2,3) tr' in blast)
  with r(2) nb show ?thesis by blast
qed

lemma start_run_order:
  "(\<forall>old. container this = Some old \<longrightarrow>
      (\<exists>rest. snd (snd (start fuel rt this tr)) = tr @ StopReq old # rest) \<and>
      (stop_reply rt old = None \<and> remove_reply rt old = None \<longrightarrow>
         (\<exists>rest. snd (snd (start fuel rt this tr)) =
            tr @ [StopReq old, RemoveReq old,
                  RunReq (getContainerImageName this) [] (createOptions this)] @ rest)) \<and>
      (\<forall>pre image cmd co post.
         snd (snd (start fuel rt this tr)) = tr @ pre @ RunReq image cmd co # post \<longrightarrow>
         pre = [StopReq old, RemoveReq old] \<and> stop_reply rt old = None \<and> remove_reply rt old = None)) \<and>
   (container this = None \<longrightarrow>
      (\<exists>rest. snd (snd (start fuel rt this tr)) =
         tr @ RunReq (getContainerImageName this) [] (createOptions this) # rest) \<and>
      (\<forall>pre image cmd co post.
         snd (snd (start fuel rt this tr)) = tr @ pre @ RunReq image cmd co # post \<longrightarrow> pre = []))"
proof -
  from start_shape[of fuel rt this tr] obtain p this' rest where
    s: "start fuel rt this tr =
       (p, this',
        tr @ (case container this of
                None \<Rightarrow> RunReq (getContainerImageName this) [] (createOptions this) # rest
              | Some old \<Rightarrow>
                  if stop_reply rt old \<noteq> None then [StopReq old]
                  else if remove_reply rt old \<noteq> None then [StopReq old, RemoveReq old]
                  else [StopReq old, RemoveReq old,
                        RunReq (getContainerImageName this) [] (createOptions this)] @ rest))"
    and r: "\<forall>e\<in>set rest. after_run e" by blast
  have nr: "RunReq image cmd co \<notin> set rest" for image cmd co
    using r by (auto simp: after_run_def)
  have u0: "pre = []" if "pre @ RunReq image cmd co # post = RunReq i [] o' # rest"
    for pre image cmd co post i o'
  proof (cases pre)
    case Nil
    then show ?thesis by simp
  next
    case (Cons x xs)
    with that have "rest = xs @ RunReq image cmd co # post" by simp
    then have "RunReq image cmd co \<in> set rest" by simp
    with nr[of image cmd co] show ?thesis by simp
  qed
  have u2: "pre = [a, b]" if "pre @ RunReq image cmd co # post = a # b # RunReq i [] o' # rest"
    and "\<forall>i c co1. a \<noteq> RunReq i c co1" "\<forall>i c co1. b \<noteq> RunReq i c co1"
    for pre image cmd co post i o' a b
  proof (cases pre)
    case Nil
    then show ?thesis using that by auto
  next
    case (Cons x xs)
    then have xs: "xs @ RunReq image cmd co # post = b # RunReq i [] o' # rest" and x: "x = a"
      using that(1) by simp_all
    show ?thesis
    proof (cases xs)
      case Nil
      then show ?thesis using xs that(3) by auto
    next
      case (Cons y ys)
      then have "ys @ RunReq image cmd co # post = RunReq i [] o' # rest" and y: "y = b"
        using xs by simp_all
      from u0[OF this(1)] show ?thesis using Cons \<open>pre = x # xs\<close> x y by simp
    qed
  qed
  show ?thesis
  proof (cases "container this")
    case None
    have 1: "\<exists>rest. snd (snd (start fuel rt this tr)) =
         tr @ RunReq (getContainerImageName this) [] (createOptions this) # rest"
      using s None by auto
    have 2: "pre = []"
      if t: "snd (snd (start fuel rt this tr)) = tr @ pre @ RunReq image cmd co # post"
      for pre image cmd co post
    proof -
      have "pre @ RunReq image cmd co # post =
          RunReq (getContainerImageName this) [] (createOptions this) # rest"
        using s None t by auto
      from u0[OF this] show ?thesis .
    qed
    from 2 have "\<forall>pre image cmd co post.
         snd (snd (start fuel rt this tr)) = tr @ pre @ RunReq image cmd co # post \<longrightarrow> pre = []"
      by blast
    with 1 show ?thesis by (simp only: None option.simps simp_thms)
  next
    case (Some old)
    have 1: "\<exists>rest. snd (snd (start fuel rt this tr)) = tr @ StopReq old # rest"
      using s Some by auto
    have 2: "\<exists>rest. snd (snd (start fuel rt this tr)) =
            tr @ [StopReq old, RemoveReq old,
                  RunReq (getContainerImageName this) [] (createOptions this)] @ rest"
      if "stop_reply rt old = None \<and> remove_reply rt old = None"
      using s Some that by auto
    have 3: "pre = [StopReq old, RemoveReq old] \<and> stop_reply rt old = None \<and> remove_reply rt old = None"
      if t: "snd (snd (start fuel rt this tr)) = tr @ pre @ RunReq image cmd co # post"
      for pre image cmd co post
    proof -
      have a: "stop_reply rt old = None"
      proof (rule ccontr)
        assume "stop_reply rt old \<noteq> None"
        then have "pre @ RunReq image cmd co # post = [StopReq old]"
          using s Some t by auto
        then show False by (cases pre) auto
      qed
      have b: "remove_reply rt old = None"
      proof (rule ccontr)
        assume "remove_reply rt old \<noteq> None"
        then have "pre @ RunReq image cmd co # post = [StopReq old, RemoveReq old]"
          using s Some t a by auto
        then show False by (cases pre; cases "tl pre") auto
      qed
      have "pre @ RunReq image cmd co # post =
          StopReq old # RemoveReq old # RunReq (getContainerImageName this) [] (createOptions this) # rest"
        using s Some t a b by auto
      from u2[OF this] show ?thesis using a b by simp
    qed
    from 3 have "\<forall>pre image cmd co post.
         snd (snd (start fuel rt this tr)) = tr @ pre @ RunReq image cmd co # post \<longrightarrow>
         pre = [StopReq old, RemoveReq old] \<and> stop_reply rt old = None \<and> remove_reply rt old = None"
      by blast
    moreover from 2 have "stop_reply rt old = None \<and> remove_reply rt old = None \<longrightarrow>
         (\<exists>rest. snd (snd (start fuel rt this tr)) =
            tr @ [StopReq old, RemoveReq old,
                  RunReq (getContainerImageName this) [] (createOptions this)] @ rest)"
      by blast
    ultimately show ?thesis using 1 by (simp only: Some option.simps simp_thms)
  qed
qed

subsection \<open>Health polling\<close>

text \<open>
  Claim C1. The promise of \<^verbatim>\<open>start\<close> resolves exactly when a queried status ends with
  \<^verbatim>\<open>(healthy)\<close>.

  Only then: whenever \<^verbatim>\<open>start\<close> resolves, with \<open>c'\<close>, the runtime has started \<open>c'\<close> on the run
  request, its id is not blank, and there is an \<open>m\<close> below the number of observed
  iterations such that the queries \<open>0, \<dots>, m\<close> of the call each reported a status for \<open>c'\<close>,
  the first \<open>m\<close> of them unhealthy and the last healthy, and such that the call has sent
  exactly \<open>m + 1\<close> queries and \<open>m\<close> waits of 1000 ms after its other requests \<open>pre\<close>. A query
  that fails, or that lists no container with the id, never resolves the promise.

  Conversely, let the runtime accept the teardown of a prior container (if there is one),
  start a container \<open>c\<close> with a non-blank id on the run request and let the log
  collaborator succeed (if logs are emitted); let \<open>st k\<close> be the status that the \<open>k\<close>-th
  query after the start reports for \<open>c\<close>. Then \<^verbatim>\<open>start\<close> sends its requests \<open>pre\<close>, none of them
  a status query or a wait, and polls:
  \<^item> if the first healthy status is \<open>st m\<close> (the status \<open>m + 1\<close> of the sequence), the
    promise resolves with \<open>c\<close> after exactly \<open>m + 1\<close> queries and \<open>m\<close> waits of 1000 ms, one
    wait after each unhealthy reply and none after the healthy one; it is resolved as soon
    as more than \<open>m\<close> iterations are observed and not before;
  \<^item> if no status is healthy, the promise is unsettled after every number of iterations,
    \<open>fuel\<close> queries and \<open>fuel\<close> waits having been sent: the loop has no bound;
  \<^item> if after \<open>m\<close> unhealthy statuses the next query fails or lists no container with the
    id, the promise is rejected after \<open>m + 1\<close> queries and \<open>m\<close> waits: a failed query is not
    retried.
\<close>

theorem start_health_polling:
  "(\<forall>fuel c'. fst (start fuel rt this tr) = Resolved c' \<longrightarrow>
      run_reply rt (getContainerImageName this) = RunStarted c' \<and> nonBlank (id' c') \<and>
      (\<exists>m st pre. m < fuel \<and>
         (\<forall>k\<le>m. status_of_query rt (id' c') (queries tr + k) = Some (st k)) \<and>
         (\<forall>k<m. \<not> healthy (st k)) \<and> healthy (st m) \<and>
         ListContainersReq \<notin> set pre \<and> (\<forall>ms. SetTimeout ms \<notin> set pre) \<and>
         snd (snd (start fuel rt this tr)) =
           tr @ pre @ concat (replicate m [ListContainersReq, SetTimeout 1000]) @ [ListContainersReq])) \<and>
   ((\<forall>old. container this = Some old \<longrightarrow> stop_reply rt old = None \<and> remove_reply rt old = None) \<and>
    run_reply rt (getContainerImageName this) = RunStarted c \<and>
    (emitContainerLogs this \<longrightarrow> logs_reply rt c = None) \<and>
    nonBlank (id' c) \<longrightarrow>
    (\<exists>pre. ListContainersReq \<notin> set pre \<and> (\<forall>ms. SetTimeout ms \<notin> set pre) \<and>
     (\<forall>fuel m st.
        (\<forall>k\<le>m. status_of_query rt (id' c) (queries tr + k) = Some (st k)) \<and>
        (\<forall>k<m. \<not> healthy (st k)) \<and> healthy (st m) \<longrightarrow>
        start fuel rt this tr =
          (if m < fuel
           then (Resolved c, this\<lparr>container := Some c, containerId := Some (id' c)\<rparr>,
                 tr @ pre @ concat (replicate m [ListContainersReq, SetTimeout 1000]) @ [ListContainersReq])
           else (OutOfFuel, this\<lparr>container := Some c, containerId := Some (id' c)\<rparr>,
                 tr @ pre @ concat (replicate fuel [ListContainersReq, SetTimeout 1000])))) \<and>
     (\<forall>fuel st.
        (\<forall>k. status_of_query rt (id' c) (queries tr + k) = Some (st k) \<and> \<not> healthy (st k)) \<longrightarrow>
        start fuel rt this tr =
          (OutOfFuel, this\<lparr>container := Some c, containerId := Some (id' c)\<rparr>,
           tr @ pre @ concat (replicate fuel [ListContainersReq, SetTimeout 1000]))) \<and>
     (\<forall>fuel m st.
        (\<forall>k<m. status_of_query rt (id' c) (queries tr + k) = Some (st k) \<and> \<not> healthy (st k)) \<and>
        status_of_query rt (id' c) (queries tr + m) = None \<longrightarrow>
        (\<exists>e. start fuel rt this tr =
          (if m < fuel
           then (Rejected e, this\<lparr>container := Some c, containerId := Some (id' c)\<rparr>,
                 tr @ pre @ concat (replicate m [ListContainersReq, SetTimeout 1000]) @ [ListContainersReq])
           else (OutOfFuel, this\<lparr>container := Some c, containerId := Some (id' c)\<rparr>,
                 tr @ pre @ concat (replicate fuel [ListContainersReq, SetTimeout 1000])))))))"
proof (rule conjI, goal_cases)
  case 1
  show ?case by (intro allI impI) (erule start_resolved_only_when)
next
  case 2
  show ?case by (intro impI, elim conjE) (rule start_polls; assumption)
qed

theorem start_health_polling_witness:
  "(\<exists>pre. ListContainersReq \<notin> set pre \<and> (\<forall>ms. SetTimeout ms \<notin> set pre) \<and>
      start 3 (example_runtime None (status_sequence spec_statuses)) fresh_handle [] =
        (Resolved example_container, started_handle,
         pre @ [ListContainersReq, SetTimeout 1000, ListContainersReq, SetTimeout 1000, ListContainersReq]) \<and>
      start 2 (example_runtime None (status_sequence spec_statuses)) fresh_handle [] =
        (OutOfFuel, started_handle,
         pre @ [ListContainersReq, SetTimeout 1000, ListContainersReq, SetTimeout 1000])) \<and>
   (\<exists>pre. ListContainersReq \<notin> set pre \<and> (\<forall>ms. SetTimeout ms \<notin> set pre) \<and>
      start 3 (example_runtime None (always_status ''starting'')) fresh_handle [] =
        (OutOfFuel, started_handle,
         pre @ [ListContainersReq, SetTimeout 1000, ListContainersReq, SetTimeout 1000,
                ListContainersReq, SetTimeout 1000])) \<and>
   (\<exists>pre e. ListContainersReq \<notin> set pre \<and> (\<forall>ms. SetTimeout ms \<notin> set pre) \<and>
      start 3 (example_runtime None (status_sequence [''starting'', ''starting''])) fresh_handle [] =
        (Rejected e, started_handle,
         pre @ [ListContainersReq, SetTimeout 1000, ListContainersReq, SetTimeout 1000, ListContainersReq])) \<and>
   (\<forall>fuel c. fst (start fuel vanished_runtime fresh_handle []) \<noteq> Resolved c)"
proof -
  let ?rt = "example_runtime None (status_sequence spec_statuses)"
  let ?rt' = "example_runtime None (always_status ''starting'')"
  let ?rt2 = "example_runtime None (status_sequence [''starting'', ''starting''])"
  have h1: "\<forall>old. container fresh_handle = Some old \<longrightarrow> stop_reply rt old = None \<and> remove_reply rt old = None" for rt
    by (simp add: fresh_handle_def)
  have h2: "run_reply (example_runtime None r) (getContainerImageName fresh_handle) = RunStarted example_container" for r
    by (simp add: example_runtime_def)
  have h3: "emitContainerLogs fresh_handle \<longrightarrow> logs_reply (example_runtime None r) example_container = None" for r
    by (simp add: example_runtime_def)
  have h4: "nonBlank (id' example_container)"
    by (simp add: example_container_def nonBlank_def isWhiteSpace_def)
  note hyps = conjI[OF h1 conjI[OF h2 conjI[OF h3 h4]]]
  have s1: "\<forall>k\<le>2. status_of_query ?rt (id' example_container) (queries [] + k) = Some (spec_statuses ! k)"
    by (simp add: status_of_query_def example_runtime_def status_sequence_def spec_statuses_def
        example_container_def example_info_def queries_def)
  have s2: "(\<forall>k<2. \<not> healthy (spec_statuses ! k)) \<and> healthy (spec_statuses ! 2)"
    by (simp add: healthy_def endsWith_def spec_statuses_def less_Suc_eq numeral_2_eq_2)
  have s3: "\<forall>k. status_of_query ?rt' (id' example_container) (queries [] + k) = Some (''starting'')
      \<and> \<not> healthy ''starting''"
    by (simp add: status_of_query_def example_runtime_def always_status_def example_container_def
        example_info_def queries_def healthy_def endsWith_def)
  have s4: "(\<forall>k<2. status_of_query ?rt2 (id' example_container) (queries [] + k) = Some (''starting'')
                \<and> \<not> healthy ''starting'') \<and>
            status_of_query ?rt2 (id' example_container) (queries [] + 2) = None"
    by (simp add: status_of_query_def example_runtime_def status_sequence_def example_container_def
        example_info_def queries_def healthy_def endsWith_def less_Suc_eq numeral_2_eq_2)
  have s5: "status_of_query vanished_runtime i k = None" for i k
    by (simp add: status_of_query_def vanished_runtime_def example_runtime_def)
  have u: "fresh_handle\<lparr>container := Some example_container, containerId := Some (id' example_container)\<rparr>
      = started_handle"
    by (simp add: started_handle_def example_container_def)
  from start_health_polling[where rt = ?rt and this = fresh_handle and tr = "[]"
      and c = example_container, THEN conjunct2, THEN mp, OF hyps]
  obtain pre where pre: "ListContainersReq \<notin> set pre" "\<forall>ms. SetTimeout ms \<notin> set pre"
    and A: "\<And>fuel m st. (\<forall>k\<le>m. status_of_query ?rt (id' example_container) (queries [] + k) = Some (st k)) \<and>
        (\<forall>k<m. \<not> healthy (st k)) \<and> healthy (st m) \<Longrightarrow>
        start fuel ?rt fresh_handle [] =
          (if m < fuel
           then (Resolved example_container, started_handle,
                 [] @ pre @ concat (replicate m [ListContainersReq, SetTimeout 1000]) @ [ListContainersReq])
           else (OutOfFuel, started_handle,
                 [] @ pre @ concat (replicate fuel [ListContainersReq, SetTimeout 1000])))"
    unfolding u by blast
  from A[of 2 "\<lambda>k. spec_statuses ! k" 3] A[of 2 "\<lambda>k. spec_statuses ! k" 2] s1 s2 pre
  have 1: "\<exists>pre. ListContainersReq \<notin> set pre \<and> (\<forall>ms. SetTimeout ms \<notin> set pre) \<and>
      start 3 ?rt fresh_handle [] =
        (Resolved example_container, started_handle,
         pre @ [ListContainersReq, SetTimeout 1000, ListContainersReq, SetTimeout 1000, ListContainersReq]) \<and>
      start 2 ?rt fresh_handle [] =
        (OutOfFuel, started_handle,
         pre @ [ListContainersReq, SetTimeout 1000, ListContainersReq, SetTimeout 1000])"
    by (auto simp: numeral_2_eq_2)
  from start_health_polling[where rt = ?rt' and this = fresh_handle and tr = "[]"
      and c = example_container, THEN conjunct2, THEN mp, OF hyps]
  obtain pre' where pre': "ListContainersReq \<notin> set pre'" "\<forall>ms. SetTimeout ms \<notin> set pre'"
    and B: "\<And>fuel st. (\<forall>k. status_of_query ?rt' (id' example_container) (queries [] + k) = Some (st k)
                    \<and> \<not> healthy (st k)) \<Longrightarrow>
        start fuel ?rt' fresh_handle [] =
          (OutOfFuel, started_handle,
           [] @ pre' @ concat (replicate fuel [ListContainersReq, SetTimeout 1000]))"
    unfolding u by blast
  from B[of "\<lambda>k. ''starting''" 3] s3 pre'
  have 2: "\<exists>pre. ListContainersReq \<notin> set pre \<and> (\<forall>ms. SetTimeout ms \<notin> set pre) \<and>
      start 3 ?rt' fresh_handle [] =
        (OutOfFuel, started_handle,
         pre @ [ListContainersReq, SetTimeout 1000, ListContainersReq, SetTimeout 1000,
                ListContainersReq, SetTimeout 1000])"
    by (auto simp: numeral_3_eq_3)
  from start_health_polling[where rt = ?rt2 and this = fresh_handle and tr = "[]"
      and c = example_container, THEN conjunct2, THEN mp, OF hyps]
  obtain pre2 where pre2: "ListContainersReq \<notin> set pre2" "\<forall>ms. SetTimeout ms \<notin> set pre2"
    and C: "\<And>fuel m st.
        (\<forall>k<m. status_of_query ?rt2 (id' example_container) (queries [] + k) = Some (st k)
                \<and> \<not> healthy (st k)) \<and>
        status_of_query ?rt2 (id' example_container) (queries [] + m) = None \<Longrightarrow>
        \<exists>e. start fuel ?rt2 fresh_handle [] =
          (if m < fuel
           then (Rejected e, started_handle,
                 [] @ pre2 @ concat (replicate m [ListContainersReq, SetTimeout 1000]) @ [ListContainersReq])
           else (OutOfFuel, started_handle,
                 [] @ pre2 @ concat (replicate fuel [ListContainersReq, SetTimeout 1000])))"
    unfolding u by blast
  from C[of 2 "\<lambda>k. ''starting''" 3] s4 obtain e where
    "start 3 ?rt2 fresh_handle [] =
        (Rejected e, started_handle,
         pre2 @ [ListContainersReq, SetTimeout 1000, ListContainersReq, SetTimeout 1000, ListContainersReq])"
    by (auto simp: numeral_2_eq_2)
  with pre2 have 3: "\<exists>pre e. ListContainersReq \<notin> set pre \<and> (\<forall>ms. SetTimeout ms \<notin> set pre) \<and>
      start 3 ?rt2 fresh_handle [] =
        (Rejected e, started_handle,
         pre @ [ListContainersReq, SetTimeout 1000, ListContainersReq, SetTimeout 1000, ListContainersReq])"
    by blast
  have 4: "fst (start fuel vanished_runtime fresh_handle []) \<noteq> Resolved c" for fuel c
  proof
    assume r: "fst (start fuel vanished_runtime fresh_handle []) = Resolved c"
    from start_health_polling[where rt = vanished_runtime and this = fresh_handle and tr = "[]",
        THEN conjunct1, rule_format, OF r]
    obtain m st where "\<forall>k\<le>m. status_of_query vanished_runtime (id' c) (queries [] + k) = Some (st k)"
      by blast
    then have "status_of_query vanished_runtime (id' c) (queries [] + 0) = Some (st 0)" by blast
    with s5 show False by simp
  qed
  from 1 2 3 4 show ?thesis by blast
qed

subsection \<open>Teardown before the run request\<close>

text \<open>
  Claim C2, as amended. When the handle holds a container \<open>old\<close>, the first request of
  \<^verbatim>\<open>start\<close> is the stop request for \<open>old\<close>. If the runtime rejects the stop, \<^verbatim>\<open>start\<close> rejects
  with that error and has sent the stop request only: no remove and no run request. If the
  runtime accepts the stop and rejects the remove, \<^verbatim>\<open>start\<close> rejects with that error and has
  sent the stop and the remove request only. If the runtime accepts both, the requests
  begin with stop, remove, run in this order. Whenever a run request is in the trace of the
  call, what precedes it is exactly the stop and the remove request for \<open>old\<close>, both
  answered with success. When the handle holds no container, the run request is the first
  request of the call: no stop or remove precedes it.
\<close>

theorem start_teardown_before_run:
  "(\<forall>old. container this = Some old \<longrightarrow>
      (\<forall>e. stop_reply rt old = Some e \<longrightarrow>
         start fuel rt this tr = (Rejected e, this, tr @ [StopReq old])) \<and>
      (\<forall>e. stop_reply rt old = None \<and> remove_reply rt old = Some e \<longrightarrow>
         start fuel rt this tr = (Rejected e, this, tr @ [StopReq old, RemoveReq old])) \<and>
      (\<exists>rest. snd (snd (start fuel rt this tr)) = tr @ StopReq old # rest) \<and>
      (stop_reply rt old = None \<and> remove_reply rt old = None \<longrightarrow>
         (\<exists>rest. snd (snd (start fuel rt this tr)) =
            tr @ [StopReq old, RemoveReq old,
                  RunReq (getContainerImageName this) [] (createOptions this)] @ rest)) \<and>
      (\<forall>pre image cmd co post.
         snd (snd (start fuel rt this tr)) = tr @ pre @ RunReq image cmd co # post \<longrightarrow>
         pre = [StopReq old, RemoveReq old] \<and> stop_reply rt old = None \<and> remove_reply rt old = None)) \<and>
   (container this = None \<longrightarrow>
      (\<exists>rest. snd (snd (start fuel rt this tr)) =
         tr @ RunReq (getContainerImageName this) [] (createOptions this) # rest) \<and>
      (\<forall>pre image cmd co post.
         snd (snd (start fuel rt this tr)) = tr @ pre @ RunReq image cmd co # post \<longrightarrow> pre = []))"
  apply (rule conjI)
   apply (intro allI impI)
   apply (rule conjI)
    apply (simp add: start_def Let_def)
   apply (rule conjI)
    apply (simp add: start_def Let_def)
   apply (erule start_run_order[THEN conjunct1, rule_format])
  apply (rule start_run_order[THEN conjunct2])
  done

theorem start_teardown_before_run_witness:
  "container started_handle = Some example_container \<and>
   (\<exists>rest. snd (snd (start 1 (example_runtime None (always_status ''running (healthy)'')) started_handle [])) =
      [StopReq example_container, RemoveReq example_container,
       RunReq ''ghcr.io/hyperledger/chia-all-in-one:v1.0.0'' [] (createOptions started_handle)] @ rest) \<and>
   stop_reply failing_stop_runtime example_container = Some (RuntimeFailure ''container already stopped'') \<and>
   start 1 failing_stop_runtime started_handle [] =
     (Rejected (RuntimeFailure ''container already stopped''), started_handle, [StopReq example_container]) \<and>
   container fresh_handle = None \<and>
   (\<exists>rest. snd (snd (start 1 (example_runtime None (always_status ''running (healthy)'')) fresh_handle [])) =
      RunReq ''ghcr.io/hyperledger/chia-all-in-one:v1.0.0'' [] (createOptions fresh_handle) # rest)"
proof -
  let ?rt = "example_runtime None (always_status ''running (healthy)'')"
  have c: "container started_handle = Some example_container"
    by (simp add: started_handle_def fresh_handle_def)
  have ok: "stop_reply ?rt example_container = None \<and> remove_reply ?rt example_container = None"
    by (simp add: example_runtime_def)
  have bad: "stop_reply failing_stop_runtime example_container =
      Some (RuntimeFailure ''container already stopped'')"
    by (simp add: failing_stop_runtime_def example_runtime_def)
  have img: "getContainerImageName started_handle = ''ghcr.io/hyperledger/chia-all-in-one:v1.0.0''"
    "getContainerImageName fresh_handle = ''ghcr.io/hyperledger/chia-all-in-one:v1.0.0''"
    by (simp_all add: started_handle_def fresh_handle_def getContainerImageName_def template_def)
  have n: "container fresh_handle = None"
    by (simp add: fresh_handle_def)
  note T = start_teardown_before_run[where this = started_handle and fuel = 1 and tr = "[]",
      THEN conjunct1, rule_format, OF c]
  from T[where rt = ?rt] ok
  have 1: "\<exists>rest. snd (snd (start 1 ?rt started_handle [])) =
      [StopReq example_container, RemoveReq example_container,
       RunReq ''ghcr.io/hyperledger/chia-all-in-one:v1.0.0'' [] (createOptions started_handle)] @ rest"
    by (simp add: img)
  from T[where rt = failing_stop_runtime] bad
  have f: "start 1 failing_stop_runtime started_handle [] =
     (Rejected (RuntimeFailure ''container already stopped''), started_handle, [StopReq example_container])"
    by simp
  from start_teardown_before_run[where this = fresh_handle and fuel = 1 and tr = "[]" and rt = ?rt,
      THEN conjunct2, rule_format, OF n]
  have 2: "\<exists>rest. snd (snd (start 1 ?rt fresh_handle [])) =
      RunReq ''ghcr.io/hyperledger/chia-all-in-one:v1.0.0'' [] (createOptions fresh_handle) # rest"
    by (simp add: img)
  from c 1 bad f n 2 show ?thesis by blast
qed

text \<open>
  The claim C2 as stated has every \<^verbatim>\<open>start\<close> on a handle with a container send a stop and
  then a remove request. On the example handle that holds a container, with a runtime that
  rejects the stop request (the container has stopped already), \<^verbatim>\<open>start\<close> rejects after the
  stop request and sends no remove request.
\<close>

theorem start_rejected_stop_counterexample:
  "container started_handle = Some example_container \<and>
   start 1 failing_stop_runtime started_handle [] =
     (Rejected (RuntimeFailure ''container already stopped''), started_handle,
      [StopReq example_container]) \<and>
   RemoveReq example_container \<notin> set (snd (snd (start 1 failing_stop_runtime started_handle [])))"
  by (simp add: start_def Let_def started_handle_def fresh_handle_def failing_stop_runtime_def
      example_runtime_def example_container_def)

subsection \<open>destroy\<close>

text \<open>
  Claim C3, as amended. On a handle without a container reference, \<^verbatim>\<open>destroy\<close> returns a
  promise rejected with the error "Container was never created, nothing to destroy." (the
  spec's \<^verbatim>\<open>NoContainerError\<close>) and sends no request. After a \<^verbatim>\<open>start\<close> that resolved with
  \<open>c\<close>, the handle holds \<open>c\<close> and its id, and \<^verbatim>\<open>destroy\<close> sends one remove request for \<open>c\<close>
  and returns the promise of that request, resolved when the runtime accepts the removal;
  the handle is returned unchanged, so the container reference and the id are still
  recorded after \<^verbatim>\<open>destroy\<close>.
\<close>

theorem destroy_issues_remove:
  "(container fresh = None \<longrightarrow>
      destroy rt fresh tr0 =
        (Inr (Rejected (Error
           ''ChiaTestLedger.destroy() Container was never created, nothing to destroy.'')),
         fresh, tr0)) \<and>
   (start fuel rt0 this0 tr0 = (Resolved c, this, tr) \<longrightarrow>
      container this = Some c \<and> containerId this = Some (id' c) \<and>
      destroy rt this tr =
        (Inr (case remove_reply rt c of None \<Rightarrow> Resolved () | Some e \<Rightarrow> Rejected e),
         this, tr @ [RemoveReq c]))"
proof -
  have A: "container this = Some c \<and> containerId this = Some (id' c) \<and>
      destroy rt this tr =
        (Inr (case remove_reply rt c of None \<Rightarrow> Resolved () | Some e \<Rightarrow> Rejected e),
         this, tr @ [RemoveReq c])"
    if "start fuel rt0 this0 tr0 = (Resolved c, this, tr)"
    using start_resolved[OF that] by (simp add: destroy_def settle_def)
  have B: "container fresh = None \<longrightarrow>
      destroy rt fresh tr0 =
        (Inr (Rejected (Error
           ''ChiaTestLedger.destroy() Container was never created, nothing to destroy.'')),
         fresh, tr0)"
    by (simp add: destroy_def)
  from A B show ?thesis by blast
qed

theorem destroy_issues_remove_witness:
  "container fresh_handle = None \<and>
   destroy (example_runtime None (always_status ''running (healthy)'')) fresh_handle [] =
     (Inr (Rejected (Error
        ''ChiaTestLedger.destroy() Container was never created, nothing to destroy.'')),
      fresh_handle, []) \<and>
   start 1 (example_runtime None (always_status ''running (healthy)'')) fresh_handle [] =
     (Resolved example_container, started_handle, started_trace) \<and>
   container started_handle = Some example_container \<and>
   destroy (example_runtime None (always_status ''running (healthy)'')) started_handle started_trace =
     (Inr (Resolved ()), started_handle, started_trace @ [RemoveReq example_container])"
proof -
  let ?rt = "example_runtime None (always_status ''running (healthy)'')"
  have n: "container fresh_handle = None"
    by (simp add: fresh_handle_def started_handle_def example_runtime_def example_container_def example_info_def no_opts_def)
  have s: "start 1 ?rt fresh_handle [] = (Resolved example_container, started_handle, started_trace)"
    by code_simp
  have r: "remove_reply ?rt example_container = None"
    by (simp add: fresh_handle_def started_handle_def example_runtime_def example_container_def example_info_def no_opts_def)
  from destroy_issues_remove[where fresh = fresh_handle and rt = ?rt and ?tr0.0 = "[]" and fuel = 1
      and ?rt0.0 = ?rt and ?this0.0 = fresh_handle and c = example_container
      and this = started_handle and tr = started_trace] n s r
  show ?thesis by simp
qed

text \<open>
  The claim C3 as stated has \<^verbatim>\<open>destroy\<close> clear the container reference. On the example
  handle, after a \<^verbatim>\<open>start\<close> that resolved and a \<^verbatim>\<open>destroy\<close> that resolved, the reference is
  still the started container.
\<close>

theorem destroy_keeps_container_counterexample:
  "start 1 (example_runtime None (always_status ''running (healthy)'')) fresh_handle [] =
     (Resolved example_container, started_handle, started_trace) \<and>
   fst (destroy (example_runtime None (always_status ''running (healthy)'')) started_handle started_trace)
     = Inr (Resolved ()) \<and>
   container (fst (snd (destroy (example_runtime None (always_status ''running (healthy)''))
     started_handle started_trace))) = Some example_container"
  by code_simp

subsection \<open>The container's IP address\<close>

text \<open>
  Claim C4. Whenever the container-info query yields an entry, \<^verbatim>\<open>getContainerIpAddress\<close>
  rejects with the error "container not connected to any networks" (the spec's
  \<^verbatim>\<open>NoNetworkError\<close>) if the entry's network mapping is empty, and otherwise resolves with
  the \<open>IPAddress\<close> of the first network in the mapping's enumeration order; one list
  request is sent.
\<close>

theorem getContainerIpAddress_first_network:
  assumes "fst (getContainerInfo rt this tr) = Inr aContainerInfo"
  shows "getContainerIpAddress rt this tr =
     (case Networks (NetworkSettings aContainerInfo) of
        [] \<Rightarrow> Rejected (Error
                ''BesuTestLedger#getContainerIpAddress() container not connected to any networks'')
      | (name, net) # others \<Rightarrow> Resolved (IPAddress net),
      tr @ [ListContainersReq])"
  using assms
  by (auto simp: getContainerIpAddress_def getContainerInfo_def Let_def
      split: sum.splits option.splits list.splits prod.splits)

theorem getContainerIpAddress_first_network_witness:
  "fst (getContainerInfo (example_runtime None (\<lambda>k. Inr [example_info ''Up'' two_networks]))
          started_handle []) = Inr (example_info ''Up'' two_networks) \<and>
   getContainerIpAddress (example_runtime None (\<lambda>k. Inr [example_info ''Up'' two_networks]))
     started_handle [] = (Resolved ''172.17.0.2'', [ListContainersReq]) \<and>
   fst (getContainerInfo (example_runtime None (\<lambda>k. Inr [example_info ''Up'' []]))
          started_handle []) = Inr (example_info ''Up'' []) \<and>
   getContainerIpAddress (example_runtime None (\<lambda>k. Inr [example_info ''Up'' []]))
     started_handle [] =
     (Rejected (Error
        ''BesuTestLedger#getContainerIpAddress() container not connected to any networks''),
      [ListContainersReq])"
proof -
  let ?rt2 = "example_runtime None (\<lambda>k. Inr [example_info ''Up'' two_networks])"
  let ?rt0 = "example_runtime None (\<lambda>k. Inr [example_info ''Up'' []])"
  have nb: "nonBlank ''abc''"
    by (simp add: nonBlank_def isWhiteSpace_def)
  have a: "fst (getContainerInfo ?rt2 started_handle []) = Inr (example_info ''Up'' two_networks)"
    using nb by (simp add: getContainerInfo_def getContainerId_eq queries_def Let_def fresh_handle_def started_handle_def example_runtime_def example_container_def example_info_def no_opts_def)
  have b: "fst (getContainerInfo ?rt0 started_handle []) = Inr (example_info ''Up'' [])"
    using nb by (simp add: getContainerInfo_def getContainerId_eq queries_def Let_def fresh_handle_def started_handle_def example_runtime_def example_container_def example_info_def no_opts_def)
  from getContainerIpAddress_first_network[OF a] getContainerIpAddress_first_network[OF b] a b
  show ?thesis by (simp add: example_info_def two_networks_def)
qed

subsection \<open>The recorded container id\<close>




subsection \<open>The image name\<close>

text \<open>
  Claim C6. On every handle the constructor builds, \<^verbatim>\<open>getContainerImageName\<close> is the image
  name, a colon and the image version, where the name is the option \<^verbatim>\<open>imageName\<close> or, when
  that is omitted (or empty), the default \<^verbatim>\<open>ghcr.io/hyperledger/chia-all-in-one\<close>, and the
  version is the option \<^verbatim>\<open>imageVersion\<close> or, when that is omitted (or empty), the default
  \<^verbatim>\<open>v1.0.0\<close>. The method is a total function of the handle alone: it sends no request,
  changes no field and cannot fail.
\<close>

theorem getContainerImageName_constructed:
  assumes "constructor arg = Inr this"
  shows "\<exists>os n v. arg = Some os \<and>
      imageName this = Some n \<and> imageVersion this = Some v \<and>
      getContainerImageName this = n @ '':'' @ v \<and>
      n = (case opt_imageName os of
             None \<Rightarrow> ''ghcr.io/hyperledger/chia-all-in-one''
           | Some x \<Rightarrow> if x = [] then ''ghcr.io/hyperledger/chia-all-in-one'' else x) \<and>
      v = (case opt_imageVersion os of
             None \<Rightarrow> ''v1.0.0''
           | Some x \<Rightarrow> if x = [] then ''v1.0.0'' else x)"
proof -
  from assms obtain os where os: "arg = Some os"
    by (cases arg) (simp_all add: constructor_def)
  let ?n = "or_default (opt_imageName os) DEFAULTS_imageName"
  let ?v = "or_default (opt_imageVersion os) DEFAULTS_imageVersion"
  from assms os have f: "imageName this = Some ?n" "imageVersion this = Some ?v"
    by (auto simp: constructor_def)
  then have g: "getContainerImageName this = ?n @ '':'' @ ?v"
    by (simp add: getContainerImageName_def template_def)
  have n: "?n = (case opt_imageName os of
             None \<Rightarrow> ''ghcr.io/hyperledger/chia-all-in-one''
           | Some x \<Rightarrow> if x = [] then ''ghcr.io/hyperledger/chia-all-in-one'' else x)"
    unfolding or_default_def DEFAULTS_imageName_def ..
  have v: "?v = (case opt_imageVersion os of
             None \<Rightarrow> ''v1.0.0''
           | Some x \<Rightarrow> if x = [] then ''v1.0.0'' else x)"
    unfolding or_default_def DEFAULTS_imageVersion_def ..
  from os f g n v show ?thesis by blast
qed

theorem getContainerImageName_constructed_witness:
  "constructor (Some no_opts) = Inr fresh_handle \<and>
   getContainerImageName fresh_handle = ''ghcr.io/hyperledger/chia-all-in-one:v1.0.0''"
proof -
  have c: "constructor (Some no_opts) = Inr fresh_handle"
    by (simp add: constructor_def or_default_def DEFAULTS_imageName_def DEFAULTS_imageVersion_def
        DEFAULTS_envVars_def fresh_handle_def started_handle_def example_runtime_def example_container_def example_info_def no_opts_def)
  from getContainerImageName_constructed[OF c] c show ?thesis
    by (auto simp: no_opts_def)
qed

subsection \<open>The id is recorded with the container\<close>

text \<open>
  Claim C7. In every state that a sequence of operations (\<^verbatim>\<open>start\<close> with its handler, whether
  it resolves, rejects or is still polling, \<^verbatim>\<open>stop\<close>, \<^verbatim>\<open>destroy\<close>, \<^verbatim>\<open>getContainerIpAddress\<close>,
  against any runtimes) reaches from a handle the constructor has built, the container id
  is defined if and only if the container reference is defined.
\<close>

theorem containerId_iff_container:
  assumes "constructor arg = Inr this0"
  shows "(containerId (fst (run_ops steps (this0, tr))) \<noteq> None) =
         (container (fst (run_ops steps (this0, tr))) \<noteq> None)"
proof -
  from assms have "containerId (fst (this0, tr)) = map_option id' (container (fst (this0, tr)))"
    by (auto simp: constructor_def split: option.splits)
  from run_ops_inv[OF this, of steps] show ?thesis by simp
qed

theorem containerId_iff_container_witness:
  "constructor (Some no_opts) = Inr fresh_handle \<and>
   ((containerId (fst (run_ops
        [(failing_run_runtime, OpStart 1), (vanished_runtime, OpStart 2),
         (failing_stop_runtime, OpStop), (failing_stop_runtime, OpDestroy),
         (failing_stop_runtime, OpStart 1)] (fresh_handle, []))) \<noteq> None) =
    (container (fst (run_ops
        [(failing_run_runtime, OpStart 1), (vanished_runtime, OpStart 2),
         (failing_stop_runtime, OpStop), (failing_stop_runtime, OpDestroy),
         (failing_stop_runtime, OpStart 1)] (fresh_handle, []))) \<noteq> None))"
proof -
  have c: "constructor (Some no_opts) = Inr fresh_handle"
    by (simp add: constructor_def or_default_def DEFAULTS_imageName_def DEFAULTS_imageVersion_def
        DEFAULTS_envVars_def fresh_handle_def started_handle_def example_runtime_def example_container_def example_info_def no_opts_def)
  from containerId_iff_container[OF c] c show ?thesis by blast
qed

subsection \<open>The image version at construction\<close>




subsection \<open>A failure of the log collaborator\<close>

text \<open>
  Claim C9 has \<^verbatim>\<open>start\<close> reject when the log streaming inside the \<^verbatim>\<open>"start"\<close> handler throws.
  On the example handle, which emits logs, with a runtime that starts the container and
  whose log collaborator throws, the promise of \<^verbatim>\<open>start\<close> is never settled, however many
  iterations are allowed: the exception rejects the handler's own promise, which nothing
  handles, and no status query is sent.
\<close>

theorem start_log_streaming_throws:
  "start fuel failing_logs_runtime fresh_handle [] =
   (NeverSettled, started_handle,
    [RunReq ''ghcr.io/hyperledger/chia-all-in-one:v1.0.0'' [] (createOptions fresh_handle),
     StreamLogsReq example_container ''[ghcr.io/hyperledger/chia-all-in-one:v1.0.0]'',
     UnhandledRejection (RuntimeFailure ''logs'')])"
  by (simp add: start_def launch_def onStart_def Let_def fresh_handle_def started_handle_def example_runtime_def example_container_def example_info_def no_opts_def failing_logs_runtime_def
      getContainerImageName_def template_def getContainer_def createOptions_def)

subsection \<open>stop without a container\<close>

text \<open>
  Claim C10. On a handle without a container reference, \<^verbatim>\<open>stop\<close> throws synchronously the
  error of \<^verbatim>\<open>getContainer\<close>, "container not set on this instance yet.", instead of returning a
  promise; it sends no request and leaves the handle as it was.
\<close>

theorem stop_without_container_throws:
  assumes "container this = None"
  shows "stop rt this tr =
     (Inl (Error ''ChiaTestLedger.getContainer() container not set on this instance yet.''),
      this, tr)"
  using assms by (simp add: stop_def getContainer_def)

theorem stop_without_container_throws_witness:
  "container fresh_handle = None \<and>
   stop failing_stop_runtime fresh_handle [] =
     (Inl (Error ''ChiaTestLedger.getContainer() container not set on this instance yet.''),
      fresh_handle, [])"
proof -
  have n: "container fresh_handle = None"
    by (simp add: fresh_handle_def)
  from stop_without_container_throws[OF n] n show ?thesis by simp
qed

end
